theory Spec2Isabelle
  imports Main "HOL-Library.Word" "HOL-Library.Multiset"
begin

chapter \<open>xcbuild: the Ninja executor and the frameworks-phase resolver\<close>

text \<open>
  A shallow embedding of \<^verbatim>\<open>Sources/pbxbuild/Action/NinjaExecutor.cpp\<close> and
  \<^verbatim>\<open>Sources/pbxbuild/Phase/FrameworksResolver.cpp\<close>. A \<^verbatim>\<open>std::string\<close> is a
  \<^typ>\<open>string\<close> (a list of bytes), a \<^verbatim>\<open>std::vector\<close> is a list, a loop with
  \<^verbatim>\<open>push_back\<close> is a \<^const>\<open>fold\<close> that appends, and a loop that can \<^verbatim>\<open>return false\<close>
  from its body is a recursive function returning the flag. Code of the repository that the
  two files call but do not contain (the filesystem helpers, MD5, the Ninja writer's
  serialiser, the setting environment, the invocation contexts) is a field of a record of
  collaborators, so every theorem holds for whatever those functions compute.
\<close>

section \<open>Shell escaping\<close>

definition alphabet :: string where
  "alphabet = ''abcdefghijklmnopqrstuvwxyzABCDEFGHIJKLMNOPQRSTUVWXYZ''"

definition digits :: string where
  "digits = ''0123456789''"

text \<open>\<^verbatim>\<open>value.find_first_not_of(chars)\<close>: the first position whose character is not in
  \<open>chars\<close>; \<open>None\<close> is \<^verbatim>\<open>npos\<close>.\<close>

fun find_first_not_of :: "string \<Rightarrow> string \<Rightarrow> nat option" where
  "find_first_not_of [] chars = None"
| "find_first_not_of (c # cs) chars =
     (if c \<in> set chars then map_option Suc (find_first_not_of cs chars) else Some 0)"

text \<open>\<^verbatim>\<open>result.find("'", offset)\<close> for a one-character needle: the first position at or
  after \<open>offset\<close> that holds the character.\<close>

fun find_char :: "string \<Rightarrow> char \<Rightarrow> nat \<Rightarrow> nat option" where
  "find_char [] c offset = None"
| "find_char (x # xs) c 0 = (if x = c then Some 0 else map_option Suc (find_char xs c 0))"
| "find_char (x # xs) c (Suc n) = map_option Suc (find_char xs c n)"

text \<open>\<^verbatim>\<open>s.replace(pos, len, str)\<close>, for \<open>pos\<close> inside the string.\<close>

definition replace :: "string \<Rightarrow> nat \<Rightarrow> nat \<Rightarrow> string \<Rightarrow> string" where
  "replace s pos len str = take pos s @ str @ drop (pos + len) s"

lemma find_char_bounds:
  "find_char s c offset = Some pos \<Longrightarrow> offset \<le> pos \<and> pos < length s \<and> s ! pos = c"
  by (induction s c offset arbitrary: pos rule: find_char.induct) (auto split: if_splits)

text \<open>The \<^verbatim>\<open>while\<close> loop of \<^verbatim>\<open>ShellEscape\<close>: each single quote found at or after the offset
  is replaced by the five characters \<^verbatim>\<open>'"'"'\<close> and the offset moves past them. The loop
  ends because the part of the string after the offset gets shorter.\<close>

function escape_quotes :: "string \<Rightarrow> nat \<Rightarrow> string" where
  "escape_quotes result offset =
     (case find_char result (CHR 0x27) offset of
        None \<Rightarrow> result
      | Some pos \<Rightarrow>
          escape_quotes (replace result pos 1 [CHR 0x27, CHR 0x22, CHR 0x27, CHR 0x22, CHR 0x27])
            (pos + 5))"
  by pat_completeness auto
termination
  by (relation "measure (\<lambda>(result, offset). length result - offset)")
     (auto simp: replace_def dest!: find_char_bounds)

declare escape_quotes.simps [simp del]

definition ShellEscape :: "string \<Rightarrow> string" where
  "ShellEscape v =
     (if find_first_not_of v (alphabet @ digits @ ''@%_-+=:,./'') = None then v
      else [CHR 0x27] @ escape_quotes v 0 @ [CHR 0x27])"

text \<open>The character class of the specification, \<^verbatim>\<open>[A-Za-z0-9@%_\-+=:,./]\<close>, written with
  the byte values of the three ranges. It follows the specification's words and is compared
  with the alphabet of the source below.\<close>

definition spec_safe_char :: "char \<Rightarrow> bool" where
  "spec_safe_char c =
     (let n = (of_char c :: nat) in
        (97 \<le> n \<and> n < 123) \<or> (65 \<le> n \<and> n < 91) \<or> (48 \<le> n \<and> n < 58)
        \<or> c \<in> {CHR ''@'', CHR ''%'', CHR ''_'', CHR ''-'', CHR ''+'', CHR ''='', CHR '':'',
                 CHR '','', CHR ''.'', CHR ''/''})"

text \<open>What the specification says happens to one character inside the quotes.\<close>

definition quote_char :: "char \<Rightarrow> string" where
  "quote_char c =
     (if c = CHR 0x27 then [CHR 0x27, CHR 0x22, CHR 0x27, CHR 0x22, CHR 0x27] else [c])"

section \<open>Synthetic phony outputs\<close>

text \<open>\<^verbatim>\<open>ss << std::hex << std::setfill('0') << std::setw(2) << static_cast<int>(c)\<close>: the
  number in lowercase hexadecimal without leading zeros, padded on the left to the width.\<close>

definition hex_digit :: "nat \<Rightarrow> char" where
  "hex_digit d = ''0123456789abcdef'' ! d"

fun to_hex :: "nat \<Rightarrow> string" where
  "to_hex n = (if n < 16 then [hex_digit n] else to_hex (n div 16) @ [hex_digit (n mod 16)])"

declare to_hex.simps [simp del]

definition setw_fill :: "nat \<Rightarrow> char \<Rightarrow> string \<Rightarrow> string" where
  "setw_fill w c s = replicate (w - length s) c @ s"

text \<open>\<^verbatim>\<open>libutil/md5\<close> is not part of the two files: the digest is a parameter, \<open>md5 s i\<close>
  being byte \<open>i\<close> of the digest that \<^verbatim>\<open>md5_init\<close>, \<^verbatim>\<open>md5_append\<close>, \<^verbatim>\<open>md5_finish\<close> leave for
  the bytes of \<open>s\<close>. The array \<^verbatim>\<open>uint8_t digest[16]\<close> has sixteen of them.\<close>

definition NinjaPhonyOutputTarget :: "(string \<Rightarrow> nat \<Rightarrow> 8 word) \<Rightarrow> string \<Rightarrow> string" where
  "NinjaPhonyOutputTarget md5 phonyOutput =
     (let digest = map (md5 phonyOutput) [0..<16];
          ss = fold (\<lambda>c ss. ss @ setw_fill 2 (CHR ''0'') (to_hex (unat c))) digest []
      in ''.ninja-phony-output-'' @ ss)"

text \<open>What the specification calls a lowercase hexadecimal digit, by character code: the
  digits \<^verbatim>\<open>0\<close> to \<^verbatim>\<open>9\<close> from code 48, the letters \<^verbatim>\<open>a\<close> to \<^verbatim>\<open>f\<close> from code 97.\<close>

definition lowercase_hex :: "nat \<Rightarrow> char" where
  "lowercase_hex d = (if d < 10 then char_of (48 + d) else char_of (97 + (d - 10)))"

section \<open>The Ninja executor: data\<close>

record AuxiliaryFile =
  aux_path :: string
  aux_contents :: string
  aux_executable :: bool

record Invocation =
  executable :: string
  arguments :: "string list"
  workingDirectory :: string
  inputs :: "string list"
  outputs :: "string list"
  phonyInputs :: "string list"
  phonyOutputs :: "string list"
  inputDependencies :: "string list"
  orderDependencies :: "string list"
  auxiliaryFiles :: "AuxiliaryFile list"

text \<open>A target is held by a shared pointer, so two targets can have the same name:
  \<open>identity\<close> tells them apart. The executor reads the name only.\<close>

record Target =
  name :: string
  identity :: nat

text \<open>What the executor reads of a target environment: the resolved
  \<^verbatim>\<open>TARGET_TEMP_DIR\<close> and the SDK's executable search paths.\<close>

record TargetEnvironment =
  TARGET_TEMP_DIR :: string
  executablePaths :: "string list"

text \<open>The statements a \<^verbatim>\<open>ninja::Writer\<close> collects, in call order. The arguments of
  \<open>Build\<close> are those of \<^verbatim>\<open>Writer::build\<close> in the order the executor passes them:
  outputs, rule, inputs, bindings, input dependencies (after \<^verbatim>\<open>|\<close>) and order
  dependencies (after \<^verbatim>\<open>||\<close>).\<close>

datatype Value = Value_String string | Value_Expression string

type_synonym Binding = "string \<times> Value"

datatype Statement =
    Comment string
  | Newline
  | BindingStatement Binding
  | Rule string Value
  | Build "Value list" string "Value list" "Binding list" "Value list" "Value list"
  | Subninja string

type_synonym Writer = "Statement list"

text \<open>The filesystem calls whose result the executor tests, and the trace of what it did to
  the filesystem: each tested call with its outcome (\<open>Fs\<close>), and each file body handed to
  \<^verbatim>\<open>out.write\<close> and \<^verbatim>\<open>out.close\<close> with the outcome of writing it (\<open>Wrote\<close>). The code
  never reads the state of the stream after \<^verbatim>\<open>out.write\<close>, so the outcome of a \<open>Wrote\<close>
  event is recorded and nothing depends on it.\<close>

datatype FileContents = Bytes string | Ninja Writer

datatype FsCall = CreateDirectory string | OpenTruncate string | Chmod string

datatype Event = Fs FsCall bool | Wrote string FileContents bool

type_synonym Trace = "Event list"

text \<open>The collaborators of the executor. The filesystem is an oracle that sees the trace so
  far, so a call may succeed once and fail later. \<open>unordered_order\<close> maps the insertion
  sequence of a \<^verbatim>\<open>std::unordered_set\<close> to its iteration sequence, which C++ leaves open.\<close>

record System =
  fs_succeeds :: "Trace \<Rightarrow> FsCall \<Rightarrow> bool"
  write_succeeds :: "Trace \<Rightarrow> string \<Rightarrow> FileContents \<Rightarrow> bool"
  TestForExecute :: "Trace \<Rightarrow> string \<Rightarrow> bool"
  FindExecutable :: "Trace \<Rightarrow> string \<Rightarrow> string list \<Rightarrow> string"
  IsAbsolutePath :: "string \<Rightarrow> bool"
  GetDirectoryName :: "string \<Rightarrow> string"
  md5 :: "string \<Rightarrow> nat \<Rightarrow> 8 word"
  createAuxiliaryDirectory :: "string \<Rightarrow> string"
  beginInvocation :: "Invocation \<Rightarrow> string \<Rightarrow> string"
  unordered_order :: "string list \<Rightarrow> string list"
  dryRun :: bool

text \<open>What \<^verbatim>\<open>build\<close> reads of the build environment, the build context and the target
  graph. \<open>workspace\<close>, \<open>project\<close> and \<open>scheme\<close> are \<open>None\<close> for a null pointer and hold the
  project file or scheme name otherwise; \<open>phaseInvocations\<close> is
  \<^verbatim>\<open>PhaseInvocations::Create(...).invocations()\<close>.\<close>

record BuildContext =
  action :: string
  workspace :: "string option"
  project :: "string option"
  scheme :: "string option"
  configuration :: string
  OBJROOT :: string
  nodes :: "Target list"
  adjacent :: "Target \<Rightarrow> Target list"
  targetEnvironment :: "Target \<Rightarrow> TargetEnvironment option"
  phaseInvocations :: "Target \<Rightarrow> TargetEnvironment \<Rightarrow> Invocation list"

section \<open>The Ninja executor: operations\<close>

text \<open>\<^verbatim>\<open>fprintf\<close> prints a \<^verbatim>\<open>%s\<close> argument, given as \<^verbatim>\<open>c_str()\<close>, up to its first zero
  byte.\<close>

definition c_str :: "string \<Rightarrow> string" where
  "c_str s = takeWhile (\<lambda>c. c \<noteq> CHR 0x00) s"

definition TargetNinjaBegin :: "Target \<Rightarrow> string" where
  "TargetNinjaBegin target = ''begin-target-'' @ name target"

definition TargetNinjaFinish :: "Target \<Rightarrow> string" where
  "TargetNinjaFinish target = ''finish-target-'' @ name target"

definition TargetNinjaPath :: "TargetEnvironment \<Rightarrow> string" where
  "TargetNinjaPath targetEnv =
     (let temporaryDirectory = TARGET_TEMP_DIR targetEnv
      in temporaryDirectory @ ''/'' @ ''build.ninja'')"

definition NinjaRuleName :: string where
  "NinjaRuleName = ''invoke''"

definition NinjaDescription :: "string \<Rightarrow> string" where
  "NinjaDescription description = takeWhile (\<lambda>c. c \<noteq> CHR 0x0A) description"

definition fs_call :: "System \<Rightarrow> FsCall \<Rightarrow> Trace \<Rightarrow> bool \<times> Trace" where
  "fs_call sys c tr = (let ok = fs_succeeds sys tr c in (ok, tr @ [Fs c ok]))"

text \<open>\<^verbatim>\<open>out.write(contents); out.close()\<close>, after the stream was opened.\<close>

definition write_file :: "System \<Rightarrow> string \<Rightarrow> FileContents \<Rightarrow> Trace \<Rightarrow> Trace" where
  "write_file sys p body tr = tr @ [Wrote p body (write_succeeds sys tr p body)]"

definition WriteNinja :: "System \<Rightarrow> Writer \<Rightarrow> string \<Rightarrow> Trace \<Rightarrow> bool \<times> Trace" where
  "WriteNinja sys writer p tr =
     (case fs_call sys (CreateDirectory (GetDirectoryName sys p)) tr of (created, tr1) \<Rightarrow>
        if \<not> created then (False, tr1)
        else case fs_call sys (OpenTruncate p) tr1 of (opened, tr2) \<Rightarrow>
          if \<not> opened then (False, tr2)
          else (True, write_file sys p (Ninja writer) tr2))"

definition ResolveExecutable :: "System \<Rightarrow> Trace \<Rightarrow> string \<Rightarrow> string list \<Rightarrow> string" where
  "ResolveExecutable sys tr exe searchPaths =
     (let builtinPrefix = ''builtin-'';
          builtin = (take (length builtinPrefix) exe = builtinPrefix)
      in if builtin then []
         else if \<not> IsAbsolutePath sys exe then FindExecutable sys tr exe searchPaths
         else exe)"

text \<open>The body of the inner loop of \<^verbatim>\<open>buildTargetOutputDirectories\<close>, for one output of one
  invocation; the state is the root writer and \<^verbatim>\<open>seenDirectories\<close>.\<close>

definition outputDirectoryEdge ::
  "System \<Rightarrow> string \<Rightarrow> Invocation \<Rightarrow> string \<Rightarrow> Writer \<times> string set \<Rightarrow> Writer \<times> string set" where
  "outputDirectoryEdge sys targetBegin invocation out st =
     (case st of (writer, seenDirectories) \<Rightarrow>
        let outputDirectory = GetDirectoryName sys out in
        if outputDirectory \<in> seenDirectories then (writer, seenDirectories)
        else
          let description = NinjaDescription (createAuxiliaryDirectory sys outputDirectory);
              command = ''/bin/mkdir -p '' @ ShellEscape outputDirectory;
              bindings = [(''description'', Value_String description),
                          (''dir'', Value_String (ShellEscape (workingDirectory invocation))),
                          (''exec'', Value_String command)];
              outs = [Value_String outputDirectory];
              orderDeps = [Value_String targetBegin]
          in (writer @ [Build outs NinjaRuleName [] bindings [] orderDeps],
              insert outputDirectory seenDirectories))"

definition buildTargetOutputDirectories ::
  "System \<Rightarrow> Writer \<Rightarrow> Target \<Rightarrow> Invocation list \<Rightarrow> string set \<Rightarrow> bool \<times> Writer \<times> string set" where
  "buildTargetOutputDirectories sys writer target invocations seenDirectories =
     (let targetBegin = TargetNinjaBegin target;
          st = fold (\<lambda>invocation. fold (outputDirectoryEdge sys targetBegin invocation)
                                        (outputs invocation))
                 invocations (writer, seenDirectories)
      in (True, st))"

text \<open>The inner loop of \<^verbatim>\<open>buildTargetAuxiliaryFiles\<close> over the auxiliary files of one
  invocation, and the outer loop over the invocations. A \<^verbatim>\<open>return false\<close> leaves both.\<close>

fun writeAuxiliaryFiles :: "System \<Rightarrow> AuxiliaryFile list \<Rightarrow> Trace \<Rightarrow> bool \<times> Trace" where
  "writeAuxiliaryFiles sys [] tr = (True, tr)"
| "writeAuxiliaryFiles sys (auxiliaryFile # rest) tr =
     (case fs_call sys (CreateDirectory (GetDirectoryName sys (aux_path auxiliaryFile))) tr of
        (created, tr1) \<Rightarrow>
        if \<not> created then (False, tr1)
        else case fs_call sys (OpenTruncate (aux_path auxiliaryFile)) tr1 of (opened, tr2) \<Rightarrow>
          if \<not> opened then (False, tr2)
          else
            let tr3 = write_file sys (aux_path auxiliaryFile) (Bytes (aux_contents auxiliaryFile)) tr2 in
            if aux_executable auxiliaryFile \<and> \<not> TestForExecute sys tr3 (aux_path auxiliaryFile)
            then (case fs_call sys (Chmod (aux_path auxiliaryFile)) tr3 of (changed, tr4) \<Rightarrow>
                    if \<not> changed then (False, tr4) else writeAuxiliaryFiles sys rest tr4)
            else writeAuxiliaryFiles sys rest tr3)"

fun writeInvocationsAuxiliaryFiles :: "System \<Rightarrow> Invocation list \<Rightarrow> Trace \<Rightarrow> bool \<times> Trace" where
  "writeInvocationsAuxiliaryFiles sys [] tr = (True, tr)"
| "writeInvocationsAuxiliaryFiles sys (invocation # rest) tr =
     (case writeAuxiliaryFiles sys (auxiliaryFiles invocation) tr of (ok, tr1) \<Rightarrow>
        if \<not> ok then (False, tr1) else writeInvocationsAuxiliaryFiles sys rest tr1)"

definition buildTargetAuxiliaryFiles :: "System \<Rightarrow> Invocation list \<Rightarrow> Trace \<Rightarrow> bool \<times> Trace" where
  "buildTargetAuxiliaryFiles sys invocations tr =
     (if dryRun sys then (True, tr) else writeInvocationsAuxiliaryFiles sys invocations tr)"

text \<open>The command string of an invocation: \<^verbatim>\<open>exec = ShellEscape(executable)\<close>, then
  \<^verbatim>\<open>exec += " " + ShellEscape(arg)\<close> for each argument.\<close>

definition invocationExec :: "string \<Rightarrow> string list \<Rightarrow> string" where
  "invocationExec exe args = fold (\<lambda>arg exec. exec @ '' '' @ ShellEscape arg) args (ShellEscape exe)"

text \<open>The body of the invocation loop of \<^verbatim>\<open>buildTargetInvocations\<close>. The state is the
  target's writer and the lines printed to the standard error stream; the loop calls no
  filesystem operation that changes the trace.\<close>

definition buildInvocation ::
  "System \<Rightarrow> TargetEnvironment \<Rightarrow> string \<Rightarrow> Trace \<Rightarrow> Invocation
     \<Rightarrow> Writer \<times> string list \<Rightarrow> Writer \<times> string list" where
  "buildInvocation sys targetEnv targetBegin tr invocation st =
     (case st of (writer, err) \<Rightarrow>
        if executable invocation = [] then (writer, err)
        else
          let exe = ResolveExecutable sys tr (executable invocation) (executablePaths targetEnv) in
          if exe = [] then
            (writer, err @ [''error: unable to find executable '' @ c_str (executable invocation)
                           @ [CHR 0x0A]])
          else
            let exec = invocationExec exe (arguments invocation);
                description = NinjaDescription (beginInvocation sys invocation exe);
                bindings = [(''description'', Value_String description),
                            (''dir'', Value_String (ShellEscape (workingDirectory invocation))),
                            (''exec'', Value_String exec)];
                outs = map Value_String (outputs invocation)
                       @ map (\<lambda>phonyOutput. Value_String (NinjaPhonyOutputTarget (md5 sys) phonyOutput))
                           (phonyOutputs invocation);
                writer1 = fold (\<lambda>phonyInput w. w @ [Build [Value_String phonyInput] ''phony'' [] [] [] []])
                            (phonyInputs invocation) writer;
                ins = map Value_String (inputs invocation);
                inputDeps = map Value_String (inputDependencies invocation);
                outputDirectories = unordered_order sys (map (GetDirectoryName sys) (outputs invocation));
                orderDeps = map Value_String (orderDependencies invocation)
                            @ map Value_String outputDirectories
                            @ [Value_String targetBegin]
            in (writer1 @ [Build outs NinjaRuleName ins bindings inputDeps orderDeps], err))"

definition buildTargetInvocations ::
  "System \<Rightarrow> Target \<Rightarrow> TargetEnvironment \<Rightarrow> Invocation list \<Rightarrow> Trace \<times> string list
     \<Rightarrow> bool \<times> Trace \<times> string list" where
  "buildTargetInvocations sys target targetEnv invocations st =
     (case st of (tr, err) \<Rightarrow>
        let targetBegin = TargetNinjaBegin target;
            writer0 = [Comment ''xcbuild ninja'', Comment (''Target: '' @ name target), Newline]
        in case buildTargetAuxiliaryFiles sys invocations tr of (written, tr1) \<Rightarrow>
          if \<not> written then (False, tr1, err)
          else case fold (buildInvocation sys targetEnv targetBegin tr1) invocations (writer0, err) of
            (writer, err1) \<Rightarrow>
              let p = TargetNinjaPath targetEnv in
              case WriteNinja sys writer p tr1 of (ok, tr2) \<Rightarrow>
                if \<not> ok then (False, tr2, err1)
                else (True, tr2, err1 @ [''Wrote '' @ c_str (name target) @ '' ninja: '' @ c_str p @ [CHR 0x0A]]))"

text \<open>The state of the target loop of \<^verbatim>\<open>build\<close>: the root writer, \<^verbatim>\<open>seenDirectories\<close>, the
  filesystem trace and the standard error stream.\<close>

type_synonym BuildState = "Writer \<times> string set \<times> Trace \<times> string list"

text \<open>The body of the target loop. The flag is \<open>False\<close> where the code returns \<^verbatim>\<open>false\<close>
  from \<^verbatim>\<open>build\<close>; the \<^verbatim>\<open>continue\<close> of a target without environment keeps it \<open>True\<close>.\<close>

definition buildTarget :: "System \<Rightarrow> BuildContext \<Rightarrow> Target \<Rightarrow> BuildState \<Rightarrow> bool \<times> BuildState" where
  "buildTarget sys ctx target st =
     (case st of (writer, seenDirectories, tr, err) \<Rightarrow>
        let dependenciesFinished =
              map (\<lambda>dependency. Value_String (TargetNinjaFinish dependency)) (adjacent ctx target);
            targetBegin = TargetNinjaBegin target;
            writer1 = writer @ [Build [Value_String targetBegin] ''phony'' dependenciesFinished [] [] []]
        in (case targetEnvironment ctx target of
          None \<Rightarrow>
            (True, writer1, seenDirectories, tr,
             err @ [''error: couldn't create target environment for '' @ c_str (name target)
                    @ [CHR 0x0A]])
        | Some targetEnv \<Rightarrow>
            let invocations = phaseInvocations ctx target targetEnv in
            case buildTargetOutputDirectories sys writer1 target invocations seenDirectories of
              (dirsOk, writer2, seen2) \<Rightarrow>
              if \<not> dirsOk then (False, writer2, seen2, tr, err)
              else case buildTargetInvocations sys target targetEnv invocations (tr, err) of
                (invocationsOk, tr1, err1) \<Rightarrow>
                if \<not> invocationsOk then (False, writer2, seen2, tr1, err1)
                else
                  let targetPath = TargetNinjaPath targetEnv;
                      writer3 = writer2 @ [Subninja targetPath];
                      invocationOutputs =
                        concat (map (\<lambda>invocation. map Value_String (outputs invocation)) invocations);
                      invocationOrderOnlyOutputs =
                        concat (map (\<lambda>invocation.
                                  map (\<lambda>phonyOutput.
                                         Value_String (NinjaPhonyOutputTarget (md5 sys) phonyOutput))
                                    (phonyOutputs invocation)) invocations);
                      targetFinish = TargetNinjaFinish target
                  in (True,
                      writer3 @ [Build [Value_String targetFinish] ''phony'' [] []
                                   invocationOutputs invocationOrderOnlyOutputs],
                      seen2, tr1, err1)))"

fun buildTargets :: "System \<Rightarrow> BuildContext \<Rightarrow> Target list \<Rightarrow> BuildState \<Rightarrow> bool \<times> BuildState" where
  "buildTargets sys ctx [] st = (True, st)"
| "buildTargets sys ctx (target # rest) st =
     (case buildTarget sys ctx target st of (ok, st1) \<Rightarrow>
        if \<not> ok then (False, st1) else buildTargets sys ctx rest st1)"

text \<open>The statements of the root writer before the target loop.\<close>

definition rootHeader :: "BuildContext \<Rightarrow> Writer" where
  "rootHeader ctx =
     [Comment ''xcbuild ninja'', Comment (''Action: '' @ action ctx)]
     @ (case workspace ctx of
          Some projectFile \<Rightarrow> [Comment (''Workspace: '' @ projectFile)]
        | None \<Rightarrow> (case project ctx of
                     Some projectFile \<Rightarrow> [Comment (''Project: '' @ projectFile)]
                   | None \<Rightarrow> []))
     @ (case scheme ctx of Some schemeName \<Rightarrow> [Comment (''Scheme: '' @ schemeName)] | None \<Rightarrow> [])
     @ [Comment (''Configuation: '' @ configuration ctx), Newline,
        BindingStatement (''builddir'', Value_String (OBJROOT ctx)), Newline,
        Rule NinjaRuleName (Value_Expression ''cd $dir && $exec'')]"

text \<open>\<^verbatim>\<open>NinjaExecutor::build\<close>. Besides the boolean result the model returns the root writer,
  the filesystem trace and the standard error stream as they are when the code returns.\<close>

definition build :: "System \<Rightarrow> BuildContext \<Rightarrow> bool \<times> Writer \<times> Trace \<times> string list" where
  "build sys ctx =
     (let intermediatesDirectory = OBJROOT ctx in
      case buildTargets sys ctx (nodes ctx) (rootHeader ctx, {}, [], []) of
        (ok, writer, seenDirectories, tr, err) \<Rightarrow>
          if \<not> ok then (False, writer, tr, err)
          else
            let p = intermediatesDirectory @ ''/'' @ ''build.ninja'' in
            case WriteNinja sys writer p tr of (written, tr1) \<Rightarrow>
              if \<not> written then (False, writer, tr1, err)
              else (True, writer, tr1, err @ [''Wrote meta-ninja: '' @ c_str p @ [CHR 0x0A]]))"

section \<open>The frameworks-phase resolver: data\<close>

text \<open>A linker or tool specification is known by its identifier; a setting level is a list
  of assignments and an environment a stack of levels, \<^verbatim>\<open>insertFront\<close> pushing one. How an
  environment resolves a name is a collaborator.\<close>

datatype Linker = Linker string

datatype Tool = Tool string

type_synonym Level = "(string \<times> string) list"

type_synonym Environment = "Level list"

text \<open>\<^verbatim>\<open>LinkerInvocationContext::Create\<close> and \<^verbatim>\<open>ToolInvocationContext::Create\<close> are not
  part of the file, so an emitted invocation is the record of the call that made it: for a
  linker invocation the linker, the input files, the library files, the output, the
  additional arguments, the environment, the working directory and the executable (empty
  where the call leaves it out); for a tool invocation the tool, the inputs, the outputs,
  the environment and the working directory.\<close>

datatype ToolInvocation =
    LinkerInvocation Linker "string list" "string list" string "string list" Environment string string
  | ToolInvocation Tool "string list" "string list" Environment string

text \<open>Of an invocation of the sources phase the resolver reads the outputs only.\<close>

record SourceInvocation =
  sourceOutputs :: "string list"

record SourcesResolver =
  linkerDriver :: string
  linkerArgs :: "string list"
  variantArchitectureInvocations :: "string \<times> string \<Rightarrow> SourceInvocation list option"

text \<open>What \<^verbatim>\<open>Create\<close> reads of the phase context: the two lookups of the specification
  manager (\<open>None\<close> for a null pointer), the target environment with its variants,
  architectures and working directory, and the helpers it calls.\<close>

record PhaseContext =
  linker :: "string \<Rightarrow> Linker option"
  tool :: "string \<Rightarrow> Tool option"
  environment :: Environment
  resolve :: "Environment \<Rightarrow> string \<Rightarrow> string"
  VariantLevel :: "string \<Rightarrow> Level"
  ArchitectureLevel :: "string \<Rightarrow> Level"
  variants :: "string list"
  architectures :: "string list"
  targetWorkingDirectory :: string
  resolveBuildFiles :: "Environment \<Rightarrow> string list \<Rightarrow> (string \<times> string) list"
  GetFileExtension :: "string \<Rightarrow> string"

section \<open>The frameworks-phase resolver: operations\<close>

text \<open>The locals of the variant loop, as functions of the variant.\<close>

definition variantEnvironment :: "PhaseContext \<Rightarrow> string \<Rightarrow> Environment" where
  "variantEnvironment ctx variant = VariantLevel ctx variant # environment ctx"

definition variantIntermediatesName :: "PhaseContext \<Rightarrow> string \<Rightarrow> string" where
  "variantIntermediatesName ctx variant =
     resolve ctx (variantEnvironment ctx variant) ''EXECUTABLE_NAME''
     @ resolve ctx (variantEnvironment ctx variant) ''EXECUTABLE_VARIANT_SUFFIX''"

definition variantIntermediatesDirectory :: "PhaseContext \<Rightarrow> string \<Rightarrow> string" where
  "variantIntermediatesDirectory ctx variant =
     resolve ctx (variantEnvironment ctx variant) (''OBJECT_FILE_DIR_'' @ variant)"

definition variantProductsOutput :: "PhaseContext \<Rightarrow> string \<Rightarrow> string" where
  "variantProductsOutput ctx variant =
     (let productsDirectory = resolve ctx (environment ctx) ''BUILT_PRODUCTS_DIR'';
          variantProductsPath =
            resolve ctx (variantEnvironment ctx variant) ''EXECUTABLE_PATH''
            @ resolve ctx (variantEnvironment ctx variant) ''EXECUTABLE_VARIANT_SUFFIX''
      in productsDirectory @ ''/'' @ variantProductsPath)"

text \<open>The locals of the architecture loop.\<close>

definition archEnvironment :: "PhaseContext \<Rightarrow> string \<Rightarrow> string \<Rightarrow> Environment" where
  "archEnvironment ctx variant arch = ArchitectureLevel ctx arch # variantEnvironment ctx variant"

definition libraryFiles :: "PhaseContext \<Rightarrow> string list \<Rightarrow> string \<Rightarrow> string \<Rightarrow> string list" where
  "libraryFiles ctx buildPhaseFiles variant arch =
     map snd (resolveBuildFiles ctx (archEnvironment ctx variant arch) buildPhaseFiles)"

definition objectOutputs :: "PhaseContext \<Rightarrow> SourcesResolver \<Rightarrow> string \<Rightarrow> string \<Rightarrow> string list" where
  "objectOutputs ctx sourcesResolver variant arch =
     (case variantArchitectureInvocations sourcesResolver (variant, arch) of
        None \<Rightarrow> []
      | Some sourceInvocations \<Rightarrow>
          concat (map (\<lambda>invocation. filter (\<lambda>out. GetFileExtension ctx out = ''o'')
                                        (sourceOutputs invocation))
                    sourceInvocations))"

definition architectureIntermediatesOutput :: "PhaseContext \<Rightarrow> string \<Rightarrow> string \<Rightarrow> string" where
  "architectureIntermediatesOutput ctx variant arch =
     (let architectureIntermediatesDirectory = variantIntermediatesDirectory ctx variant @ ''/'' @ arch
      in architectureIntermediatesDirectory @ ''/'' @ variantIntermediatesName ctx variant)"

text \<open>The body of the architecture loop; the state is \<^verbatim>\<open>invocations\<close> and
  \<^verbatim>\<open>universalBinaryInputs\<close>. The first argument holds the linker chosen before the loops
  with its executable and arguments.\<close>

definition linkArchitecture ::
  "PhaseContext \<Rightarrow> string list \<Rightarrow> SourcesResolver \<Rightarrow> Linker \<times> string \<times> string list \<Rightarrow> string
     \<Rightarrow> string \<Rightarrow> ToolInvocation list \<times> string list \<Rightarrow> ToolInvocation list \<times> string list" where
  "linkArchitecture ctx buildPhaseFiles sourcesResolver active variant arch st =
     (case (active, st) of ((activeLinker, linkerExecutable, linkerArguments),
                            (invocations, universalBinaryInputs)) \<Rightarrow>
        let createUniversalBinary = (length (architectures ctx) > 1);
            files = libraryFiles ctx buildPhaseFiles variant arch;
            objects = objectOutputs ctx sourcesResolver variant arch
        in if createUniversalBinary then
             (invocations @ [LinkerInvocation activeLinker objects files
                               (architectureIntermediatesOutput ctx variant arch) linkerArguments
                               (archEnvironment ctx variant arch) (targetWorkingDirectory ctx)
                               linkerExecutable],
              universalBinaryInputs @ [architectureIntermediatesOutput ctx variant arch])
           else
             (invocations @ [LinkerInvocation activeLinker objects files
                               (variantProductsOutput ctx variant) linkerArguments
                               (archEnvironment ctx variant arch) (targetWorkingDirectory ctx)
                               linkerExecutable],
              universalBinaryInputs))"

text \<open>The body of the variant loop; the state is \<^verbatim>\<open>invocations\<close>.\<close>

definition linkVariant ::
  "PhaseContext \<Rightarrow> string list \<Rightarrow> SourcesResolver \<Rightarrow> Linker \<times> string \<times> string list \<Rightarrow> Linker
     \<Rightarrow> Tool \<Rightarrow> string \<Rightarrow> string \<Rightarrow> ToolInvocation list \<Rightarrow> ToolInvocation list" where
  "linkVariant ctx buildPhaseFiles sourcesResolver active lipo dsymutil binaryType variant invocations =
     (let createUniversalBinary = (length (architectures ctx) > 1) in
      case fold (linkArchitecture ctx buildPhaseFiles sourcesResolver active variant)
             (architectures ctx) (invocations, []) of
        (invocations1, universalBinaryInputs) \<Rightarrow>
          let invocations2 =
                (if createUniversalBinary then
                   invocations1 @ [LinkerInvocation lipo universalBinaryInputs []
                                     (variantProductsOutput ctx variant) []
                                     (variantEnvironment ctx variant) (targetWorkingDirectory ctx) []]
                 else invocations1)
          in if resolve ctx (variantEnvironment ctx variant) ''DEBUG_INFORMATION_FORMAT''
                  = ''dwarf-with-dsym''
                \<and> (binaryType \<noteq> ''staticlib'' \<and> binaryType \<noteq> ''mh_object'')
             then
               let dsymfile = resolve ctx (variantEnvironment ctx variant) ''DWARF_DSYM_FOLDER_PATH''
                              @ ''/''
                              @ resolve ctx (variantEnvironment ctx variant) ''DWARF_DSYM_FILE_NAME''
               in invocations2 @ [ToolInvocation dsymutil [variantProductsOutput ctx variant] [dsymfile]
                                    (variantEnvironment ctx variant) (targetWorkingDirectory ctx)]
             else invocations2)"

text \<open>\<^verbatim>\<open>FrameworksResolver::Create\<close>: the lines written to the standard error stream, and
  the invocations of the resolver, \<open>None\<close> where the code returns \<^verbatim>\<open>nullptr\<close>.\<close>

definition Create ::
  "PhaseContext \<Rightarrow> string list \<Rightarrow> SourcesResolver \<Rightarrow> string list \<times> ToolInvocation list option" where
  "Create ctx buildPhaseFiles sourcesResolver =
     (case (linker ctx ''com.apple.pbx.linkers.ld'',
            linker ctx ''com.apple.pbx.linkers.libtool'',
            linker ctx ''com.apple.xcode.linkers.lipo'',
            tool ctx ''com.apple.tools.dsymutil'') of
        (Some ld, Some libtool, Some lipo, Some dsymutil) \<Rightarrow>
          let binaryType = resolve ctx (environment ctx) ''MACH_O_TYPE'';
              active = (if binaryType = ''staticlib'' then (libtool, [], [])
                        else (ld, linkerDriver sourcesResolver, linkerArgs sourcesResolver))
          in ([], Some (fold (linkVariant ctx buildPhaseFiles sourcesResolver active lipo dsymutil
                                binaryType)
                          (variants ctx) []))
      | _ \<Rightarrow> ([''error: couldn't get linker tools'' @ [CHR 0x0A]], None))"

section \<open>A POSIX shell's word splitting\<close>

text \<open>What a POSIX shell makes of a command string, for the part of the shell language that
  \<^const>\<open>ShellEscape\<close> produces (Shell Command Language, 2.2 Quoting and 2.3 Token
  Recognition): blanks separate words; between single quotes every character stands for
  itself; between double quotes every character stands for itself except the dollar sign,
  the backquote and the backslash; quotes are removed and adjacent quoted and unquoted
  parts form one word. A string that uses anything else of the shell language (an unquoted
  operator, expansion, pattern or backslash, an open quote) is outside the fragment and
  gives \<open>None\<close>. The result is the list of words; what the shell then does with a word
  (a reserved word, an assignment) is not part of word splitting.\<close>

datatype ShellMode = Unquoted | SingleQuoted | DoubleQuoted

definition sh_blank :: "char \<Rightarrow> bool" where
  "sh_blank c = (c = CHR '' '' \<or> c = CHR 0x09 \<or> c = CHR 0x0A)"

definition sh_special :: "char \<Rightarrow> bool" where
  "sh_special c = (c \<in> set ''|&;<>()$`*?[#~!{}'' \<or> c = CHR 0x5C)"

text \<open>\<open>sh_words mode word s\<close>: the words of \<open>s\<close>, read in the mode, where \<open>word\<close> is the
  word begun so far, if any.\<close>

fun sh_words :: "ShellMode \<Rightarrow> string option \<Rightarrow> string \<Rightarrow> string list option" where
  "sh_words Unquoted word [] = Some (case word of None \<Rightarrow> [] | Some w \<Rightarrow> [w])"
| "sh_words Unquoted word (c # cs) =
     (if sh_blank c then
        (case word of
           None \<Rightarrow> sh_words Unquoted None cs
         | Some w \<Rightarrow> map_option ((#) w) (sh_words Unquoted None cs))
      else if c = CHR 0x27 then sh_words SingleQuoted (Some (case_option [] id word)) cs
      else if c = CHR 0x22 then sh_words DoubleQuoted (Some (case_option [] id word)) cs
      else if sh_special c then None
      else sh_words Unquoted (Some (case_option [] id word @ [c])) cs)"
| "sh_words SingleQuoted word [] = None"
| "sh_words SingleQuoted word (c # cs) =
     (if c = CHR 0x27 then sh_words Unquoted word cs
      else sh_words SingleQuoted (Some (case_option [] id word @ [c])) cs)"
| "sh_words DoubleQuoted word [] = None"
| "sh_words DoubleQuoted word (c # cs) =
     (if c = CHR 0x22 then sh_words Unquoted word cs
      else if c = CHR ''$'' \<or> c = CHR ''`'' \<or> c = CHR 0x5C then None
      else sh_words DoubleQuoted (Some (case_option [] id word @ [c])) cs)"

definition sh_split :: "string \<Rightarrow> string list option" where
  "sh_split command = sh_words Unquoted None command"

section \<open>Reading the result of a build\<close>

text \<open>The definitions of this section are not part of the executor: they say what the
  theorems below observe of its result.\<close>

text \<open>A trace is free of failures when every tested filesystem call in it succeeded.\<close>

definition failure_free :: "Trace \<Rightarrow> bool" where
  "failure_free tr = (\<forall>c. Fs c False \<notin> set tr)"

text \<open>An operation that returns a flag and a trace behaves when it only adds events, adds
  no failure where it returns \<open>True\<close>, and where it returns \<open>False\<close> adds exactly one
  failure, as the last event.\<close>

definition stops_at_failure :: "Trace \<Rightarrow> bool \<Rightarrow> Trace \<Rightarrow> bool" where
  "stops_at_failure tr ok tr' =
     (\<exists>added. tr' = tr @ added
        \<and> (if ok then failure_free added
            else \<exists>before c. added = before @ [Fs c False] \<and> failure_free before))"

text \<open>The Ninja files written, in the order of writing.\<close>

fun ninjaFiles :: "Trace \<Rightarrow> Writer list" where
  "ninjaFiles [] = []"
| "ninjaFiles (Wrote p (Ninja writer) written # tr) = writer # ninjaFiles tr"
| "ninjaFiles (event # tr) = ninjaFiles tr"

text \<open>An invocation gets a build edge when its executable is not empty and resolves.\<close>

definition invocationEmitted :: "System \<Rightarrow> TargetEnvironment \<Rightarrow> Trace \<Rightarrow> Invocation \<Rightarrow> bool" where
  "invocationEmitted sys targetEnv tr invocation =
     (executable invocation \<noteq> []
      \<and> ResolveExecutable sys tr (executable invocation) (executablePaths targetEnv) \<noteq> [])"

text \<open>The outputs of the build edge of an invocation: the real outputs, then the synthetic
  paths of the phony outputs.\<close>

definition edgeOutputs :: "System \<Rightarrow> Invocation \<Rightarrow> string list" where
  "edgeOutputs sys invocation =
     outputs invocation @ map (NinjaPhonyOutputTarget (md5 sys)) (phonyOutputs invocation)"

definition invocationEdge ::
  "System \<Rightarrow> TargetEnvironment \<Rightarrow> Target \<Rightarrow> Trace \<Rightarrow> Invocation \<Rightarrow> Statement" where
  "invocationEdge sys targetEnv target tr invocation =
     (let exe = ResolveExecutable sys tr (executable invocation) (executablePaths targetEnv)
      in Build (map Value_String (edgeOutputs sys invocation)) NinjaRuleName
           (map Value_String (inputs invocation))
           [(''description'', Value_String (NinjaDescription (beginInvocation sys invocation exe))),
            (''dir'', Value_String (ShellEscape (workingDirectory invocation))),
            (''exec'', Value_String (invocationExec exe (arguments invocation)))]
           (map Value_String (inputDependencies invocation))
           (map Value_String
              (orderDependencies invocation
               @ unordered_order sys (map (GetDirectoryName sys) (outputs invocation))
               @ [TargetNinjaBegin target])))"

text \<open>What an invocation adds to the sub-graph of its target and to the standard error
  stream.\<close>

definition invocationStatements ::
  "System \<Rightarrow> TargetEnvironment \<Rightarrow> Target \<Rightarrow> Trace \<Rightarrow> Invocation \<Rightarrow> Statement list" where
  "invocationStatements sys targetEnv target tr invocation =
     (if invocationEmitted sys targetEnv tr invocation
      then map (\<lambda>phonyInput. Build [Value_String phonyInput] ''phony'' [] [] [] [])
             (phonyInputs invocation)
           @ [invocationEdge sys targetEnv target tr invocation]
      else [])"

definition invocationDiagnostics ::
  "System \<Rightarrow> TargetEnvironment \<Rightarrow> Trace \<Rightarrow> Invocation \<Rightarrow> string list" where
  "invocationDiagnostics sys targetEnv tr invocation =
     (if executable invocation \<noteq> [] \<and> \<not> invocationEmitted sys targetEnv tr invocation
      then [''error: unable to find executable '' @ c_str (executable invocation) @ [CHR 0x0A]]
      else [])"

definition targetGraph ::
  "System \<Rightarrow> TargetEnvironment \<Rightarrow> Target \<Rightarrow> Trace \<Rightarrow> Invocation list \<Rightarrow> Writer" where
  "targetGraph sys targetEnv target tr invocations =
     [Comment ''xcbuild ninja'', Comment (''Target: '' @ name target), Newline]
     @ concat (map (invocationStatements sys targetEnv target tr) invocations)"

text \<open>The two phony edges of a target in the root graph.\<close>

definition beginEdge :: "BuildContext \<Rightarrow> Target \<Rightarrow> Statement" where
  "beginEdge ctx target =
     Build [Value_String (TargetNinjaBegin target)] ''phony''
       (map (\<lambda>dependency. Value_String (TargetNinjaFinish dependency)) (adjacent ctx target))
       [] [] []"

definition finishEdge :: "System \<Rightarrow> Target \<Rightarrow> Invocation list \<Rightarrow> Statement" where
  "finishEdge sys target invocations =
     Build [Value_String (TargetNinjaFinish target)] ''phony'' [] []
       (map Value_String (concat (map outputs invocations)))
       (map Value_String
          (concat (map (\<lambda>invocation. map (NinjaPhonyOutputTarget (md5 sys)) (phonyOutputs invocation))
                     invocations)))"

text \<open>A mention of an output directory: the directory of a real output, with the target and
  the invocation the output belongs to. The mentions of a build are in the order in which
  the executor meets them; a target without environment has none.\<close>

type_synonym Mention = "string \<times> Target \<times> Invocation"

definition invocationMentions :: "System \<Rightarrow> Target \<Rightarrow> Invocation \<Rightarrow> Mention list" where
  "invocationMentions sys target invocation =
     map (\<lambda>out. (GetDirectoryName sys out, target, invocation)) (outputs invocation)"

definition targetMentions :: "System \<Rightarrow> BuildContext \<Rightarrow> Target \<Rightarrow> Mention list" where
  "targetMentions sys ctx target =
     (case targetEnvironment ctx target of
        None \<Rightarrow> []
      | Some targetEnv \<Rightarrow>
          concat (map (invocationMentions sys target) (phaseInvocations ctx target targetEnv)))"

definition buildMentions :: "System \<Rightarrow> BuildContext \<Rightarrow> Mention list" where
  "buildMentions sys ctx = concat (map (targetMentions sys ctx) (nodes ctx))"

text \<open>The mentions that meet their directory for the first time, given the directories seen
  before.\<close>

fun firstUnseen :: "string set \<Rightarrow> Mention list \<Rightarrow> Mention list" where
  "firstUnseen seen [] = []"
| "firstUnseen seen (m # ms) =
     (if fst m \<in> seen then firstUnseen seen ms else m # firstUnseen (insert (fst m) seen) ms)"

text \<open>The directory-creation edge for a mention.\<close>

definition mkdirEdge :: "System \<Rightarrow> Mention \<Rightarrow> Statement" where
  "mkdirEdge sys m =
     (case m of (outputDirectory, target, invocation) \<Rightarrow>
        Build [Value_String outputDirectory] NinjaRuleName []
          [(''description'', Value_String (NinjaDescription (createAuxiliaryDirectory sys outputDirectory))),
           (''dir'', Value_String (ShellEscape (workingDirectory invocation))),
           (''exec'', Value_String (''/bin/mkdir -p '' @ ShellEscape outputDirectory))]
          [] [Value_String (TargetNinjaBegin target)])"

text \<open>A statement is a directory-creation edge for a directory when it is a build edge of
  the rule \<^verbatim>\<open>invoke\<close> whose only output is the directory. In the root graph no other edge
  uses that rule.\<close>

fun createsDirectory :: "string \<Rightarrow> Statement \<Rightarrow> bool" where
  "createsDirectory d (Build outs r ins bindings inputDeps orderDeps) =
     (r = NinjaRuleName \<and> outs = [Value_String d])"
| "createsDirectory d statement = False"

text \<open>A statement is a build edge, of any rule, with the path among its outputs.\<close>

fun produces :: "string \<Rightarrow> Statement \<Rightarrow> bool" where
  "produces p (Build outs r ins bindings inputDeps orderDeps) = (Value_String p \<in> set outs)"
| "produces p statement = False"

text \<open>What the root graph gets for a target after the directory-creation edges: the
  \<^verbatim>\<open>subninja\<close> line and the finish edge, or nothing for a target without environment.\<close>

definition targetTail :: "System \<Rightarrow> BuildContext \<Rightarrow> Target \<Rightarrow> Statement list" where
  "targetTail sys ctx target =
     (case targetEnvironment ctx target of
        None \<Rightarrow> []
      | Some targetEnv \<Rightarrow>
          [Subninja (TargetNinjaPath targetEnv),
           finishEdge sys target (phaseInvocations ctx target targetEnv)])"

text \<open>What a successful pass of the target loop does to the trace and the standard error
  stream.\<close>

definition targetWritten ::
  "System \<Rightarrow> BuildContext \<Rightarrow> Target \<Rightarrow> Trace \<times> string list \<Rightarrow> Trace \<times> string list \<Rightarrow> bool" where
  "targetWritten sys ctx target before after =
     (case (before, after) of ((tr, err), (tr', err')) \<Rightarrow>
        (case targetEnvironment ctx target of
           None \<Rightarrow>
             tr' = tr
             \<and> err' = err @ [''error: couldn't create target environment for '' @ c_str (name target)
                              @ [CHR 0x0A]]
         | Some targetEnv \<Rightarrow>
             (\<exists>tr1. stops_at_failure tr True tr1 \<and> ninjaFiles tr1 = ninjaFiles tr
                \<and> (\<exists>written.
                     tr' = tr1 @ [Fs (CreateDirectory (GetDirectoryName sys (TargetNinjaPath targetEnv))) True,
                                  Fs (OpenTruncate (TargetNinjaPath targetEnv)) True,
                                  Wrote (TargetNinjaPath targetEnv)
                                    (Ninja (targetGraph sys targetEnv target tr1
                                              (phaseInvocations ctx target targetEnv)))
                                    written])
                \<and> err' = err
                     @ concat (map (invocationDiagnostics sys targetEnv tr1)
                                 (phaseInvocations ctx target targetEnv))
                     @ [''Wrote '' @ c_str (name target) @ '' ninja: '' @ c_str (TargetNinjaPath targetEnv)
                        @ [CHR 0x0A]])))"

text \<open>The statements the target loop adds to the root graph when no filesystem call fails,
  given the directories seen before the loop.\<close>

fun rootStatements :: "System \<Rightarrow> BuildContext \<Rightarrow> string set \<Rightarrow> Target list \<Rightarrow> Statement list" where
  "rootStatements sys ctx seen [] = []"
| "rootStatements sys ctx seen (target # rest) =
     [beginEdge ctx target]
     @ map (mkdirEdge sys) (firstUnseen seen (targetMentions sys ctx target))
     @ targetTail sys ctx target
     @ rootStatements sys ctx (seen \<union> fst ` set (targetMentions sys ctx target)) rest"

fun targetsWritten ::
  "System \<Rightarrow> BuildContext \<Rightarrow> Target list \<Rightarrow> Trace \<times> string list \<Rightarrow> Trace \<times> string list \<Rightarrow> bool" where
  "targetsWritten sys ctx [] before after = (after = before)"
| "targetsWritten sys ctx (target # rest) before after =
     (\<exists>between. targetWritten sys ctx target before between
                \<and> targetsWritten sys ctx rest between after)"

text \<open>The invocations of a build: those of the targets that have an environment, in the
  order of the target loop.\<close>

definition buildInvocations :: "BuildContext \<Rightarrow> Target list \<Rightarrow> Invocation list" where
  "buildInvocations ctx targets =
     concat (map (\<lambda>target. case targetEnvironment ctx target of
                              None \<Rightarrow> []
                            | Some targetEnv \<Rightarrow> phaseInvocations ctx target targetEnv)
               targets)"

text \<open>The outputs of a statement: those of a build edge, none for any other statement.\<close>

fun statementOutputs :: "Statement \<Rightarrow> Value list" where
  "statementOutputs (Build outs r ins bindings inputDeps orderDeps) = outs"
| "statementOutputs statement = []"

text \<open>The names a build hands to the executor as outputs of edges: for every target its
  begin node and, if it has an environment, its finish node; for every invocation its
  phony inputs, its real outputs and the synthetic paths of its phony outputs; and the
  output directories, each once.\<close>

definition targetNames :: "BuildContext \<Rightarrow> Target \<Rightarrow> string list" where
  "targetNames ctx target =
     TargetNinjaBegin target
     # (case targetEnvironment ctx target of
          None \<Rightarrow> []
        | Some targetEnv \<Rightarrow> [TargetNinjaFinish target])"

definition invocationNames :: "System \<Rightarrow> Invocation \<Rightarrow> string list" where
  "invocationNames sys invocation = phonyInputs invocation @ edgeOutputs sys invocation"

definition declaredOutputs :: "System \<Rightarrow> BuildContext \<Rightarrow> string list" where
  "declaredOutputs sys ctx =
     concat (map (targetNames ctx) (nodes ctx))
     @ concat (map (invocationNames sys) (buildInvocations ctx (nodes ctx)))
     @ remdups (map fst (buildMentions sys ctx))"





text \<open>The tested calls of a trace.\<close>

fun testedCalls :: "Trace \<Rightarrow> FsCall list" where
  "testedCalls [] = []"
| "testedCalls (Fs c ok # tr) = c # testedCalls tr"
| "testedCalls (event # tr) = testedCalls tr"

text \<open>The paths of the files written, in the order of writing.\<close>

fun writtenPaths :: "Trace \<Rightarrow> string list" where
  "writtenPaths [] = []"
| "writtenPaths (Wrote p body written # tr) = p # writtenPaths tr"
| "writtenPaths (event # tr) = writtenPaths tr"

text \<open>The paths a build writes to when no filesystem call fails: for every target that has
  an environment the auxiliary files of its invocations (none in a dry run) and then its
  sub-graph file; at the end the root graph file.\<close>

definition auxiliaryPaths :: "System \<Rightarrow> Invocation list \<Rightarrow> string list" where
  "auxiliaryPaths sys invocations =
     (if dryRun sys then []
      else concat (map (\<lambda>invocation. map aux_path (auxiliaryFiles invocation)) invocations))"

definition targetPaths :: "System \<Rightarrow> BuildContext \<Rightarrow> Target \<Rightarrow> string list" where
  "targetPaths sys ctx target =
     (case targetEnvironment ctx target of
        None \<Rightarrow> []
      | Some targetEnv \<Rightarrow>
          auxiliaryPaths sys (phaseInvocations ctx target targetEnv) @ [TargetNinjaPath targetEnv])"

definition buildPaths :: "System \<Rightarrow> BuildContext \<Rightarrow> string list" where
  "buildPaths sys ctx =
     concat (map (targetPaths sys ctx) (nodes ctx)) @ [OBJROOT ctx @ ''/build.ninja'']"



text \<open>The file at a path after the events of a trace: the body handed to the stream by the
  last write to the path, a later write replacing an earlier one (the files are opened
  with \<^verbatim>\<open>std::ios::trunc\<close>).\<close>

fun fileContents :: "Trace \<Rightarrow> string \<Rightarrow> FileContents option" where
  "fileContents [] p = None"
| "fileContents (Wrote q body written # tr) p =
     (case fileContents tr p of
        Some later \<Rightarrow> Some later
      | None \<Rightarrow> if q = p then Some body else None)"
| "fileContents (event # tr) p = fileContents tr p"

text \<open>The emitted build graph is what Ninja loads from the root graph file: the statements
  of that file and, for each of its \<^verbatim>\<open>subninja\<close> lines, the statements of the file at the
  path of the line as it is at the end of the build. A file that is named by two lines is
  loaded twice. (The executor writes no \<^verbatim>\<open>subninja\<close> line into the sub-graph of a target.)\<close>

fun included :: "Trace \<Rightarrow> Statement \<Rightarrow> Statement list" where
  "included tr (Subninja p) =
     (case fileContents tr p of Some (Ninja writer) \<Rightarrow> writer | _ \<Rightarrow> [])"
| "included tr statement = []"

definition emittedGraph :: "BuildContext \<Rightarrow> Trace \<Rightarrow> Statement list" where
  "emittedGraph ctx tr =
     (case fileContents tr (OBJROOT ctx @ ''/build.ninja'') of
        Some (Ninja root) \<Rightarrow> root @ concat (map (included tr) root)
      | _ \<Rightarrow> [])"

section \<open>Concrete inputs\<close>

text \<open>A small setting environment for the examples: a name resolves to its first assignment
  in the stack of levels, and to the empty string where it has none.\<close>

definition lookup_resolve :: "Environment \<Rightarrow> string \<Rightarrow> string" where
  "lookup_resolve env setting = (case map_of (concat env) setting of Some v \<Rightarrow> v | None \<Rightarrow> [])"

definition example_specs :: "string \<Rightarrow> Linker option" where
  "example_specs identifier =
     (if identifier \<in> {''com.apple.pbx.linkers.ld'', ''com.apple.pbx.linkers.libtool'',
                        ''com.apple.xcode.linkers.lipo''}
      then Some (Linker identifier) else None)"

definition example_tools :: "string \<Rightarrow> Tool option" where
  "example_tools identifier =
     (if identifier = ''com.apple.tools.dsymutil'' then Some (Tool identifier) else None)"

text \<open>An executable for two architectures with debug symbols in a dSYM, in one variant.\<close>

definition fat_settings :: Level where
  "fat_settings =
     [(''MACH_O_TYPE'', ''mh_execute''), (''BUILT_PRODUCTS_DIR'', ''/b''),
      (''EXECUTABLE_NAME'', ''App''), (''EXECUTABLE_PATH'', ''App''),
      (''OBJECT_FILE_DIR_normal'', ''/o''),
      (''DEBUG_INFORMATION_FORMAT'', ''dwarf-with-dsym''),
      (''DWARF_DSYM_FOLDER_PATH'', ''/b''),
      (''DWARF_DSYM_FILE_NAME'', ''App.dSYM'')]"

definition fat_context :: PhaseContext where
  "fat_context =
     \<lparr> linker = example_specs,
       tool = example_tools,
       environment = [fat_settings],
       resolve = lookup_resolve,
       VariantLevel = (\<lambda>variant. [(''CURRENT_VARIANT'', variant)]),
       ArchitectureLevel = (\<lambda>arch. [(''CURRENT_ARCH'', arch)]),
       variants = [''normal''],
       architectures = [''arm64'', ''x86_64''],
       targetWorkingDirectory = ''/w'',
       resolveBuildFiles = (\<lambda>env files. map (\<lambda>f. (f, f)) files),
       GetFileExtension = (\<lambda>p. rev (takeWhile (\<lambda>c. c \<noteq> CHR ''.'') (rev p))) \<rparr>"

definition fat_sources :: SourcesResolver where
  "fat_sources =
     \<lparr> linkerDriver = ''clang'',
       linkerArgs = [],
       variantArchitectureInvocations =
         (\<lambda>key. if key = (''normal'', ''arm64'')
                 then Some [\<lparr> sourceOutputs = [''/o/arm64/a.o'', ''/o/arm64/a.d''] \<rparr>]
                 else if key = (''normal'', ''x86_64'')
                 then Some [\<lparr> sourceOutputs = [''/o/x86_64/a.o''] \<rparr>]
                 else None) \<rparr>"

definition fat_invocations :: "ToolInvocation list" where
  "fat_invocations =
     [LinkerInvocation (Linker ''com.apple.pbx.linkers.ld'') [''/o/arm64/a.o''] [''libz.dylib'']
        ''/o/arm64/App'' []
        [[(''CURRENT_ARCH'', ''arm64'')], [(''CURRENT_VARIANT'', ''normal'')], fat_settings] ''/w'' ''clang'',
      LinkerInvocation (Linker ''com.apple.pbx.linkers.ld'') [''/o/x86_64/a.o''] [''libz.dylib'']
        ''/o/x86_64/App'' []
        [[(''CURRENT_ARCH'', ''x86_64'')], [(''CURRENT_VARIANT'', ''normal'')], fat_settings] ''/w'' ''clang'',
      LinkerInvocation (Linker ''com.apple.xcode.linkers.lipo'') [''/o/arm64/App'', ''/o/x86_64/App'']
        [] ''/b/App'' [] [[(''CURRENT_VARIANT'', ''normal'')], fat_settings] ''/w'' [],
      ToolInvocation (Tool ''com.apple.tools.dsymutil'') [''/b/App''] [''/b/App.dSYM'']
        [[(''CURRENT_VARIANT'', ''normal'')], fat_settings] ''/w'']"

text \<open>The same target where one spec cannot be looked up: the tool
  \<^verbatim>\<open>com.apple.tools.dsymutil\<close>, the linker \<^verbatim>\<open>com.apple.xcode.linkers.lipo\<close>, the linker
  \<^verbatim>\<open>com.apple.pbx.linkers.libtool\<close>.\<close>

definition without_dsymutil :: PhaseContext where
  "without_dsymutil = fat_context \<lparr> tool := (\<lambda>identifier. None) \<rparr>"

definition without_lipo :: PhaseContext where
  "without_lipo =
     fat_context \<lparr> linker := (\<lambda>identifier. if identifier = ''com.apple.xcode.linkers.lipo''
                                             then None else example_specs identifier) \<rparr>"

definition without_libtool :: PhaseContext where
  "without_libtool =
     fat_context \<lparr> linker := (\<lambda>identifier. if identifier = ''com.apple.pbx.linkers.libtool''
                                             then None else example_specs identifier) \<rparr>"

text \<open>A digest function whose sixteen bytes use every hexadecimal digit, whatever the
  string.\<close>

definition example_digest :: "string \<Rightarrow> nat \<Rightarrow> 8 word" where
  "example_digest s i =
     [0x01, 0x23, 0x45, 0x67, 0x89, 0xAB, 0xCD, 0xEF,
      0xFE, 0xDC, 0xBA, 0x98, 0x76, 0x54, 0x32, 0x10] ! i"

text \<open>A filesystem on which every call succeeds and no executable is found by search, with
  a stand-in for the MD5 digest.\<close>

definition example_system :: System where
  "example_system =
     \<lparr> fs_succeeds = (\<lambda>tr c. True),
       write_succeeds = (\<lambda>tr p body. True),
       TestForExecute = (\<lambda>tr p. False),
       FindExecutable = (\<lambda>tr exe searchPaths. []),
       IsAbsolutePath = (\<lambda>p. take 1 p = ''/''),
       GetDirectoryName = (\<lambda>p. rev (drop 1 (dropWhile (\<lambda>c. c \<noteq> CHR ''/'') (rev p)))),
       md5 = (\<lambda>s i. word_of_nat (sum_list (map of_char s) + i)),
       createAuxiliaryDirectory = (\<lambda>d. ''CreateDirectory '' @ d),
       beginInvocation = (\<lambda>invocation exe. exe),
       unordered_order = remdups,
       dryRun = False \<rparr>"

definition example_invocation :: Invocation where
  "example_invocation =
     \<lparr> executable = [], arguments = [], workingDirectory = ''/w'', inputs = [], outputs = [],
       phonyInputs = [], phonyOutputs = [], inputDependencies = [], orderDependencies = [],
       auxiliaryFiles = [] \<rparr>"

definition example_context :: "Invocation list \<Rightarrow> BuildContext" where
  "example_context invocations =
     \<lparr> action = ''build'', workspace = None, project = Some ''/p.xcodeproj'', scheme = None,
       configuration = ''Debug'', OBJROOT = ''/obj'',
       nodes = [\<lparr> name = ''T'', identity = 0 \<rparr>],
       adjacent = (\<lambda>target. []),
       targetEnvironment = (\<lambda>target. Some \<lparr> TARGET_TEMP_DIR = ''/t'', executablePaths = [] \<rparr>),
       phaseInvocations = (\<lambda>target targetEnv. invocations) \<rparr>"

text \<open>A target whose one invocation has no executable and the output \<^verbatim>\<open>/out/a\<close>.\<close>

definition stub_context :: BuildContext where
  "stub_context = example_context [example_invocation \<lparr> outputs := [''/out/a''] \<rparr>]"




text \<open>Two targets, the second depending on the first, that both write to
  \<^verbatim>\<open>/obj/shared\<close>.\<close>

definition shared_A :: Invocation where
  "shared_A = example_invocation \<lparr> executable := ''/bin/true'', workingDirectory := ''/a'',
                                   outputs := [''/obj/shared/a.o''] \<rparr>"

definition shared_B :: Invocation where
  "shared_B = example_invocation \<lparr> executable := ''/bin/true'', workingDirectory := ''/b'',
                                   outputs := [''/obj/shared/b.o'', ''/obj/other/c.o''] \<rparr>"

definition shared_context :: BuildContext where
  "shared_context =
     \<lparr> action = ''build'', workspace = None, project = Some ''/p.xcodeproj'', scheme = None,
       configuration = ''Debug'', OBJROOT = ''/obj'',
       nodes = [\<lparr> name = ''A'', identity = 1 \<rparr>, \<lparr> name = ''B'', identity = 2 \<rparr>],
       adjacent = (\<lambda>target. if name target = ''B'' then [\<lparr> name = ''A'', identity = 1 \<rparr>] else []),
       targetEnvironment =
         (\<lambda>target. Some \<lparr> TARGET_TEMP_DIR = ''/t/'' @ name target, executablePaths = [] \<rparr>),
       phaseInvocations =
         (\<lambda>target targetEnv. if name target = ''A'' then [shared_A] else [shared_B]) \<rparr>"




text \<open>Two targets with the same temporary directory, whose invocations have different
  outputs.\<close>

definition same_directory_context :: BuildContext where
  "same_directory_context =
     \<lparr> action = ''build'', workspace = None, project = Some ''/p.xcodeproj'', scheme = None,
       configuration = ''Debug'', OBJROOT = ''/obj'',
       nodes = [\<lparr> name = ''A'', identity = 1 \<rparr>, \<lparr> name = ''B'', identity = 2 \<rparr>],
       adjacent = (\<lambda>target. []),
       targetEnvironment =
         (\<lambda>target. Some \<lparr> TARGET_TEMP_DIR = ''/t'', executablePaths = [] \<rparr>),
       phaseInvocations =
         (\<lambda>target targetEnv.
            if name target = ''A''
            then [example_invocation \<lparr> executable := ''/bin/true'', outputs := [''/out/a''] \<rparr>]
            else [example_invocation \<lparr> executable := ''/bin/true'', outputs := [''/out/b''] \<rparr>]) \<rparr>"

section \<open>Properties of shell escaping\<close>

lemma find_char_first:
  "find_char s c offset = Some pos \<Longrightarrow> c \<notin> set (take (pos - offset) (drop offset s))"
  by (induction s c offset arbitrary: pos rule: find_char.induct) (auto split: if_splits)

lemma find_char_None:
  "find_char s c offset = None \<longleftrightarrow> c \<notin> set (drop offset s)"
  by (induction s c offset rule: find_char.induct) auto

lemma find_first_not_of_None:
  "find_first_not_of v chars = None \<longleftrightarrow> set v \<subseteq> set chars"
  by (induction v) auto

lemma alphabet_ranges:
  "alphabet = map char_of [97..<123::nat] @ map char_of [65..<91::nat]"
  "digits = map char_of [48..<58::nat]"
  unfolding alphabet_def digits_def by code_simp+

lemma char_in_range:
  assumes "hi \<le> 256"
  shows "c \<in> set (map char_of [lo..<hi::nat]) \<longleftrightarrow> lo \<le> of_char c \<and> (of_char c :: nat) < hi"
proof
  assume "c \<in> set (map char_of [lo..<hi])"
  then obtain m where m: "lo \<le> m" "m < hi" "c = char_of m" by auto
  with assms have "of_char c = m" by simp
  with m show "lo \<le> of_char c \<and> (of_char c :: nat) < hi" by simp
next
  assume "lo \<le> of_char c \<and> (of_char c :: nat) < hi"
  then have "of_char c \<in> set [lo..<hi]" by simp
  then have "char_of (of_char c :: nat) \<in> set (map char_of [lo..<hi])"
    by (simp only: set_map image_eqI)
  then show "c \<in> set (map char_of [lo..<hi])" by simp
qed

text \<open>The alphabet of the source is the character class of the specification.\<close>

lemma safe_chars_spec:
  "c \<in> set (alphabet @ digits @ ''@%_-+=:,./'') \<longleftrightarrow> spec_safe_char c"
  unfolding alphabet_ranges set_append Un_iff
  by (simp only: char_in_range spec_safe_char_def Let_def) auto

lemma concat_quote_char_id:
  "CHR 0x27 \<notin> set s \<Longrightarrow> concat (map quote_char s) = s"
  by (induction s) (auto simp: quote_char_def)

text \<open>The loop, started at any offset, leaves the string before the offset alone and
  rewrites every character after it.\<close>

lemma escape_quotes_closed:
  "escape_quotes result offset = take offset result @ concat (map quote_char (drop offset result))"
proof (induction result offset rule: escape_quotes.induct)
  case (1 result offset)
  show ?case
  proof (cases "find_char result (CHR 0x27) offset")
    case None
    then have "CHR 0x27 \<notin> set (drop offset result)" by (simp add: find_char_None)
    then have "concat (map quote_char (drop offset result)) = drop offset result"
      by (rule concat_quote_char_id)
    with None show ?thesis by (simp add: escape_quotes.simps [of result offset])
  next
    case (Some pos)
    let ?rep = "[CHR 0x27, CHR 0x22, CHR 0x27, CHR 0x22, CHR 0x27]"
    let ?r' = "replace result pos 1 ?rep"
    from Some have b: "offset \<le> pos" "pos < length result" "result ! pos = CHR 0x27"
      using find_char_bounds by blast+
    have nq: "CHR 0x27 \<notin> set (take (pos - offset) (drop offset result))"
      using Some by (rule find_char_first)
    have split: "drop offset result =
        take (pos - offset) (drop offset result) @ CHR 0x27 # drop (Suc pos) result"
      using b
      by (metis Cons_nth_drop_Suc append_take_drop_id drop_drop le_add_diff_inverse2)
    have "concat (map quote_char (drop offset result)) =
        take (pos - offset) (drop offset result) @ ?rep @ concat (map quote_char (drop (Suc pos) result))"
      by (subst split) (simp add: concat_quote_char_id [OF nq] quote_char_def)
    moreover have "take offset result @ take (pos - offset) (drop offset result) = take pos result"
      using b by (metis le_add_diff_inverse take_add)
    ultimately have rhs: "take offset result @ concat (map quote_char (drop offset result)) =
        take pos result @ ?rep @ concat (map quote_char (drop (Suc pos) result))"
      by (metis append.assoc)
    have "take (pos + 5) ?r' = take pos result @ ?rep"
      using b by (simp add: replace_def)
    moreover have "drop (pos + 5) ?r' = drop (Suc pos) result"
      using b by (simp add: replace_def)
    ultimately have "escape_quotes ?r' (pos + 5) =
        take pos result @ ?rep @ concat (map quote_char (drop (Suc pos) result))"
      using "1.IH" [OF Some] by simp
    with Some rhs show ?thesis by (simp add: escape_quotes.simps [of result offset])
  qed
qed

lemma ShellEscape_closed:
  "ShellEscape v =
     (if set v \<subseteq> Collect spec_safe_char then v
      else [CHR 0x27] @ concat (map quote_char v) @ [CHR 0x27])"
proof -
  have "(find_first_not_of v (alphabet @ digits @ ''@%_-+=:,./'') = None)
          \<longleftrightarrow> set v \<subseteq> Collect spec_safe_char"
    unfolding find_first_not_of_None using safe_chars_spec by blast
  then show ?thesis
    by (simp add: ShellEscape_def escape_quotes_closed)
qed

lemma length_concat_quote_char:
  "length v \<le> length (concat (map quote_char v))"
  by (induction v) (auto simp: quote_char_def)

text \<open>
  Claim C6. \<^const>\<open>ShellEscape\<close> returns its input unchanged if and only if every character
  of the input is in \<^verbatim>\<open>[A-Za-z0-9@%_\-+=:,./]\<close>; otherwise it returns the input between
  single quotes, every single quote of the input replaced by the five characters
  \<^verbatim>\<open>'"'"'\<close>. So \<^verbatim>\<open>hello\<close> and \<^verbatim>\<open>/usr/bin/ld\<close> stay as they are, \<^verbatim>\<open>hello world\<close> becomes
  \<^verbatim>\<open>'hello world'\<close> and \<^verbatim>\<open>it's\<close> becomes \<^verbatim>\<open>'it'"'"'s'\<close>.
\<close>

theorem ShellEscape_spec:
  "ShellEscape v =
     (if set v \<subseteq> Collect spec_safe_char then v
      else [CHR 0x27] @ concat (map quote_char v) @ [CHR 0x27])
   \<and> (ShellEscape v = v \<longleftrightarrow> set v \<subseteq> Collect spec_safe_char)
   \<and> ShellEscape ''hello'' = ''hello''
   \<and> ShellEscape ''hello world'' = [CHR 0x27] @ ''hello world'' @ [CHR 0x27]
   \<and> ShellEscape (''it'' @ [CHR 0x27] @ ''s'') =
       [CHR 0x27] @ ''it'' @ [CHR 0x27, CHR 0x22, CHR 0x27, CHR 0x22, CHR 0x27] @ ''s'' @ [CHR 0x27]
   \<and> ShellEscape ''/usr/bin/ld'' = ''/usr/bin/ld''"
proof -
  have "([CHR 0x27] @ concat (map quote_char v) @ [CHR 0x27]) \<noteq> v"
  proof
    assume "[CHR 0x27] @ concat (map quote_char v) @ [CHR 0x27] = v"
    then have "length ([CHR 0x27] @ concat (map quote_char v) @ [CHR 0x27]) = length v" by simp
    with length_concat_quote_char [of v] show False by simp
  qed
  then have iff: "ShellEscape v = v \<longleftrightarrow> set v \<subseteq> Collect spec_safe_char"
    by (simp add: ShellEscape_closed)
  have e1: "ShellEscape ''hello'' = ''hello''" by code_simp
  have e2: "ShellEscape ''hello world'' = [CHR 0x27] @ ''hello world'' @ [CHR 0x27]" by code_simp
  have e3: "ShellEscape (''it'' @ [CHR 0x27] @ ''s'') =
       [CHR 0x27] @ ''it'' @ [CHR 0x27, CHR 0x22, CHR 0x27, CHR 0x22, CHR 0x27] @ ''s'' @ [CHR 0x27]"
    by code_simp
  have e4: "ShellEscape ''/usr/bin/ld'' = ''/usr/bin/ld''" by code_simp
  show ?thesis using ShellEscape_closed iff e1 e2 e3 e4 by blast
qed

section \<open>Properties of the synthetic phony output\<close>

lemma fold_append_concat:
  "fold (\<lambda>x acc. acc @ f x) xs a = a @ concat (map f xs)"
  by (induction xs arbitrary: a) auto

lemma hex_digit_in:
  "d < 16 \<Longrightarrow> hex_digit d \<in> set ''0123456789abcdef''"
  unfolding hex_digit_def by (rule nth_mem) simp

text \<open>A byte printed in hexadecimal at width two, filled with zeros, is its two hexadecimal
  digits.\<close>

lemma setw_to_hex_byte:
  assumes "n < 256"
  shows "setw_fill 2 (CHR ''0'') (to_hex n) = [hex_digit (n div 16), hex_digit (n mod 16)]"
proof (cases "n < 16")
  case True
  then show ?thesis
    by (simp add: to_hex.simps [of n] setw_fill_def hex_digit_def)
next
  case False
  with assms have "n div 16 < 16" by simp
  then have "to_hex (n div 16) = [hex_digit (n div 16)]"
    by (simp add: to_hex.simps [of "n div 16"])
  with False show ?thesis
    by (simp add: to_hex.simps [of n] setw_fill_def)
qed

lemma unat_byte_less: "unat (b :: 8 word) < 256"
  using unsigned_less [of b, where ?'a = nat] by simp

lemma NinjaPhonyOutputTarget_closed:
  "NinjaPhonyOutputTarget md5sum s =
     ''.ninja-phony-output-''
     @ concat (map (\<lambda>i. [hex_digit (unat (md5sum s i) div 16), hex_digit (unat (md5sum s i) mod 16)])
                 [0..<16])"
  by (simp only: NinjaPhonyOutputTarget_def Let_def fold_append_concat map_map comp_def
        setw_to_hex_byte [OF unat_byte_less] append_Nil)

lemma hex_digit_lowercase:
  assumes "d < 16"
  shows "hex_digit d = lowercase_hex d"
proof -
  have "\<forall>d \<in> set [0..<16]. hex_digit d = lowercase_hex d" by code_simp
  with assms show ?thesis by simp
qed

text \<open>
  Claim C8. The synthetic phony output is a function of the string alone: it is
  \<^verbatim>\<open>.ninja-phony-output-\<close> followed by the sixteen bytes of the MD5 digest of the string, each
  as two lowercase hexadecimal digits, the high one first, where the sixteen digits are the
  characters \<^verbatim>\<open>0123456789abcdef\<close> in this order. The part after the prefix has 32
  characters, all of them in \<^verbatim>\<open>0123456789abcdef\<close>. (That equal strings give equal paths
  is what it means to be a function of the string; the digest itself is a parameter.)
\<close>

theorem NinjaPhonyOutputTarget_spec:
  "NinjaPhonyOutputTarget md5sum s =
     ''.ninja-phony-output-''
     @ concat (map (\<lambda>i. [lowercase_hex (unat (md5sum s i) div 16),
                           lowercase_hex (unat (md5sum s i) mod 16)])
                 [0..<16])
   \<and> map lowercase_hex [0..<16] = ''0123456789abcdef''
   \<and> take 20 (NinjaPhonyOutputTarget md5sum s) = ''.ninja-phony-output-''
   \<and> length (drop 20 (NinjaPhonyOutputTarget md5sum s)) = 32
   \<and> set (drop 20 (NinjaPhonyOutputTarget md5sum s)) \<subseteq> set ''0123456789abcdef''"
proof -
  let ?hex = "concat (map (\<lambda>i. [hex_digit (unat (md5sum s i) div 16),
                                  hex_digit (unat (md5sum s i) mod 16)]) [0..<16])"
  let ?low = "concat (map (\<lambda>i. [lowercase_hex (unat (md5sum s i) div 16),
                                  lowercase_hex (unat (md5sum s i) mod 16)]) [0..<16])"
  have closed: "NinjaPhonyOutputTarget md5sum s = ''.ninja-phony-output-'' @ ?hex"
    by (rule NinjaPhonyOutputTarget_closed)
  have nibbles: "unat b div 16 < 16" "unat b mod 16 < 16" for b :: "8 word"
    using unat_byte_less [of b] by simp_all
  have same: "?hex = ?low"
    by (simp only: hex_digit_lowercase [OF nibbles(1)] hex_digit_lowercase [OF nibbles(2)])
  have table: "map lowercase_hex [0..<16] = ''0123456789abcdef''" by code_simp
  have len: "length ?hex = 32"
    by (simp add: length_concat comp_def sum_list_triv)
  have "hex_digit (unat b div 16) \<in> set ''0123456789abcdef''
      \<and> hex_digit (unat b mod 16) \<in> set ''0123456789abcdef''" for b :: "8 word"
    using nibbles [of b] hex_digit_in by blast
  then have digits: "set ?hex \<subseteq> set ''0123456789abcdef''"
    by (simp only: set_concat set_map) auto
  have pre: "take 20 (''.ninja-phony-output-'' @ ?hex) = ''.ninja-phony-output-''" by simp
  have post: "drop 20 (''.ninja-phony-output-'' @ ?hex) = ?hex" by simp
  have first: "NinjaPhonyOutputTarget md5sum s = ''.ninja-phony-output-'' @ ?low"
    using closed same by simp
  have rest: "take 20 (NinjaPhonyOutputTarget md5sum s) = ''.ninja-phony-output-''
      \<and> length (drop 20 (NinjaPhonyOutputTarget md5sum s)) = 32
      \<and> set (drop 20 (NinjaPhonyOutputTarget md5sum s)) \<subseteq> set ''0123456789abcdef''"
    unfolding closed pre post using len digits by simp
  from first table rest show ?thesis by (intro conjI) simp_all
qed

text \<open>Two digests written out: one that uses every digit, and the stand-in digest of the
  example filesystem, whose bytes for \<^verbatim>\<open>X\<close> (character code 88) are 88 to 103.\<close>

theorem NinjaPhonyOutputTarget_spec_witness:
  "NinjaPhonyOutputTarget example_digest ''X'' =
     ''.ninja-phony-output-0123456789abcdeffedcba9876543210''
   \<and> NinjaPhonyOutputTarget (md5 example_system) ''X'' =
     ''.ninja-phony-output-58595a5b5c5d5e5f6061626364656667''"
proof -
  have digits: "map (\<lambda>i. [lowercase_hex (unat (example_digest ''X'' i) div 16),
                          lowercase_hex (unat (example_digest ''X'' i) mod 16)]) [0..<16] =
      [''01'', ''23'', ''45'', ''67'', ''89'', ''ab'', ''cd'', ''ef'',
       ''fe'', ''dc'', ''ba'', ''98'', ''76'', ''54'', ''32'', ''10'']"
    by code_simp
  have standin: "map (\<lambda>i. [lowercase_hex (unat (md5 example_system ''X'' i) div 16),
                           lowercase_hex (unat (md5 example_system ''X'' i) mod 16)]) [0..<16] =
      [''58'', ''59'', ''5a'', ''5b'', ''5c'', ''5d'', ''5e'', ''5f'',
       ''60'', ''61'', ''62'', ''63'', ''64'', ''65'', ''66'', ''67'']"
    by code_simp
  from NinjaPhonyOutputTarget_spec [of example_digest "''X''"]
    NinjaPhonyOutputTarget_spec [of "md5 example_system" "''X''"]
  show ?thesis
    by (simp only: digits standin) simp
qed

section \<open>The command string and the shell\<close>

lemma invocationExec_closed:
  "invocationExec exe args = ShellEscape exe @ concat (map (\<lambda>arg. '' '' @ ShellEscape arg) args)"
  unfolding invocationExec_def by (rule fold_append_concat)

text \<open>No character of the class that \<^const>\<open>ShellEscape\<close> leaves unquoted means anything to
  the shell.\<close>

lemma safe_char_literal:
  assumes "spec_safe_char c"
  shows "\<not> sh_blank c \<and> c \<noteq> CHR 0x27 \<and> c \<noteq> CHR 0x22 \<and> \<not> sh_special c"
proof -
  have "\<forall>c \<in> set (alphabet @ digits @ ''@%_-+=:,./'').
          \<not> sh_blank c \<and> c \<noteq> CHR 0x27 \<and> c \<noteq> CHR 0x22 \<and> \<not> sh_special c"
    unfolding alphabet_def digits_def sh_blank_def sh_special_def by simp
  with assms show ?thesis using safe_chars_spec by blast
qed

lemma sh_words_literal:
  "\<forall>c \<in> set a. spec_safe_char c \<Longrightarrow>
     sh_words Unquoted (Some w) (a @ rest) = sh_words Unquoted (Some (w @ a)) rest"
  by (induction a arbitrary: w) (simp_all add: safe_char_literal)

lemma sh_words_literal_start:
  assumes "\<forall>c \<in> set a. spec_safe_char c" and "a \<noteq> []"
  shows "sh_words Unquoted None (a @ rest) = sh_words Unquoted (Some a) rest"
proof -
  from assms(2) obtain c a' where a: "a = c # a'" by (cases a) auto
  with assms(1) have c: "spec_safe_char c" and a': "\<forall>c \<in> set a'. spec_safe_char c" by auto
  show ?thesis
    unfolding a using sh_words_literal [OF a', of "[c]" rest] by (simp add: safe_char_literal [OF c])
qed

text \<open>Inside single quotes the shell reads back every character, a single quote of the
  input through the five characters that leave the quotes, quote it with double quotes, and
  enter the quotes again.\<close>

lemma sh_words_quoted:
  "sh_words SingleQuoted (Some w) (concat (map quote_char a) @ CHR 0x27 # rest)
     = sh_words Unquoted (Some (w @ a)) rest"
  by (induction a arbitrary: w) (simp_all add: quote_char_def sh_blank_def)

lemma sh_words_ShellEscape:
  assumes "a \<noteq> []"
  shows "sh_words Unquoted None (ShellEscape a @ rest) = sh_words Unquoted (Some a) rest"
proof (cases "set a \<subseteq> Collect spec_safe_char")
  case True
  then have "\<forall>c \<in> set a. spec_safe_char c" by auto
  from sh_words_literal_start [OF this assms] True show ?thesis
    by (simp add: ShellEscape_closed)
next
  case False
  then show ?thesis
    using sh_words_quoted [of "[]" a rest] by (simp add: ShellEscape_closed sh_blank_def)
qed

lemma sh_words_arguments:
  "[] \<notin> set args \<Longrightarrow>
     sh_words Unquoted (Some w) (concat (map (\<lambda>arg. '' '' @ ShellEscape arg) args)) = Some (w # args)"
proof (induction args arbitrary: w)
  case Nil
  then show ?case by simp
next
  case (Cons a args)
  then have "a \<noteq> []" and rest: "[] \<notin> set args" by auto
  from sh_words_ShellEscape [OF \<open>a \<noteq> []\<close>] Cons.IH [OF rest] show ?case
    by (simp add: sh_blank_def)
qed

text \<open>The command string round-trips when no argument is empty: the shell splits it into
  the executable and the arguments.\<close>

lemma invocationExec_roundtrip:
  assumes "exe \<noteq> []" and "[] \<notin> set args"
  shows "sh_split (invocationExec exe args) = Some (exe # args)"
  unfolding sh_split_def invocationExec_closed
  by (simp only: sh_words_ShellEscape [OF assms(1)] sh_words_arguments [OF assms(2)])

text \<open>
  Claim C7 says that a POSIX shell splits the command string into the executable and the
  arguments it was made from. \<^const>\<open>ShellEscape\<close> returns the empty string for the
  empty string, so an empty argument leaves nothing between two blanks and the shell does
  not see it: for the executable \<^verbatim>\<open>/bin/echo\<close> and the arguments \<^verbatim>\<open>""\<close> and \<^verbatim>\<open>a\<close> the
  command string is \<^verbatim>\<open>/bin/echo  a\<close>, which the shell splits into two words, not three.
\<close>

theorem invocationExec_loses_empty_argument:
  "invocationExec ''/bin/echo'' ['''', ''a''] = ''/bin/echo  a''
   \<and> sh_split (invocationExec ''/bin/echo'' ['''', ''a'']) = Some [''/bin/echo'', ''a'']
   \<and> sh_split (invocationExec ''/bin/echo'' ['''', ''a'']) \<noteq> Some [''/bin/echo'', '''', ''a'']"
proof -
  have exec: "invocationExec ''/bin/echo'' ['''', ''a''] = ''/bin/echo  a''"
    by code_simp
  have split: "sh_split ''/bin/echo  a'' = Some [''/bin/echo'', ''a'']"
    by code_simp
  show ?thesis unfolding exec split by simp
qed

section \<open>Properties of the frameworks-phase resolver\<close>

text \<open>The architecture loop appends one linker invocation per architecture, and the
  per-architecture outputs when a universal binary is made.\<close>

lemma fold_linkArchitecture:
  "fold (linkArchitecture ctx files src (L, exe, args) v) archs (invs, inputs0) =
     (invs @ map (\<lambda>arch. LinkerInvocation L (objectOutputs ctx src v arch)
                            (libraryFiles ctx files v arch)
                            (if 1 < length (architectures ctx)
                             then architectureIntermediatesOutput ctx v arch
                             else variantProductsOutput ctx v)
                            args (archEnvironment ctx v arch) (targetWorkingDirectory ctx) exe)
               archs,
      inputs0 @ (if 1 < length (architectures ctx)
                 then map (architectureIntermediatesOutput ctx v) archs else []))"
  by (induction archs arbitrary: invs inputs0) (simp_all add: linkArchitecture_def)

lemma linkVariant_closed:
  "linkVariant ctx files src (L, exe, args) lipo dsymutil binaryType v invs =
     invs
     @ map (\<lambda>arch. LinkerInvocation L (objectOutputs ctx src v arch)
                      (libraryFiles ctx files v arch)
                      (if 1 < length (architectures ctx)
                       then architectureIntermediatesOutput ctx v arch
                       else variantProductsOutput ctx v)
                      args (archEnvironment ctx v arch) (targetWorkingDirectory ctx) exe)
         (architectures ctx)
     @ (if 1 < length (architectures ctx)
        then [LinkerInvocation lipo (map (architectureIntermediatesOutput ctx v) (architectures ctx))
                [] (variantProductsOutput ctx v) [] (variantEnvironment ctx v)
                (targetWorkingDirectory ctx) []]
        else [])
     @ (if resolve ctx (variantEnvironment ctx v) ''DEBUG_INFORMATION_FORMAT'' = ''dwarf-with-dsym''
           \<and> binaryType \<noteq> ''staticlib'' \<and> binaryType \<noteq> ''mh_object''
        then [ToolInvocation dsymutil [variantProductsOutput ctx v]
                [resolve ctx (variantEnvironment ctx v) ''DWARF_DSYM_FOLDER_PATH'' @ ''/''
                 @ resolve ctx (variantEnvironment ctx v) ''DWARF_DSYM_FILE_NAME'']
                (variantEnvironment ctx v) (targetWorkingDirectory ctx)]
        else [])"
  by (simp add: linkVariant_def fold_linkArchitecture Let_def)

lemma fold_append_blocks:
  assumes "\<And>x acc. f x acc = acc @ g x"
  shows "fold f xs acc = acc @ concat (map g xs)"
  by (induction xs arbitrary: acc) (simp_all add: assms)

lemma Create_Some:
  assumes "Create ctx files src = (err, Some invocations)"
  shows "\<exists>ld libtool lipo dsymutil L exe args.
           linker ctx ''com.apple.pbx.linkers.ld'' = Some ld
         \<and> linker ctx ''com.apple.pbx.linkers.libtool'' = Some libtool
         \<and> linker ctx ''com.apple.xcode.linkers.lipo'' = Some lipo
         \<and> tool ctx ''com.apple.tools.dsymutil'' = Some dsymutil
         \<and> (L, exe, args) =
             (if resolve ctx (environment ctx) ''MACH_O_TYPE'' = ''staticlib'' then (libtool, [], [])
              else (ld, linkerDriver src, linkerArgs src))
         \<and> err = []
         \<and> invocations =
             fold (linkVariant ctx files src (L, exe, args) lipo dsymutil
                     (resolve ctx (environment ctx) ''MACH_O_TYPE''))
               (variants ctx) []"
  using assms
  by (auto simp: Create_def Let_def split: option.splits if_splits)

text \<open>
  Claim C3. \<^const>\<open>Create\<close> returns no resolver if and only if one of the four lookups
  (\<^verbatim>\<open>com.apple.pbx.linkers.ld\<close>, \<^verbatim>\<open>com.apple.pbx.linkers.libtool\<close>,
  \<^verbatim>\<open>com.apple.xcode.linkers.lipo\<close>, \<^verbatim>\<open>com.apple.tools.dsymutil\<close>) finds nothing. It then
  writes the one fixed line \<^verbatim>\<open>error: couldn't get linker tools\<close> to the standard error
  stream, the same line whichever lookup failed, and writes nothing when it returns a
  resolver. The line does not say which spec is missing.
\<close>

theorem Create_fails_iff_tool_missing:
  "(snd (Create ctx files src) = None \<longleftrightarrow>
      linker ctx ''com.apple.pbx.linkers.ld'' = None
      \<or> linker ctx ''com.apple.pbx.linkers.libtool'' = None
      \<or> linker ctx ''com.apple.xcode.linkers.lipo'' = None
      \<or> tool ctx ''com.apple.tools.dsymutil'' = None)
   \<and> (snd (Create ctx files src) = None \<longleftrightarrow>
        fst (Create ctx files src) = [''error: couldn't get linker tools'' @ [CHR 0x0A]])
   \<and> (snd (Create ctx files src) \<noteq> None \<longleftrightarrow> fst (Create ctx files src) = [])"
  by (auto simp: Create_def Let_def split: option.splits)

text \<open>With every spec present the two-architecture target gets a resolver and nothing is
  printed; without \<^verbatim>\<open>libtool\<close>, which this executable target would not use, there is no
  resolver.\<close>

theorem Create_fails_iff_tool_missing_witness:
  "snd (Create fat_context [''libz.dylib''] fat_sources) \<noteq> None
   \<and> fst (Create fat_context [''libz.dylib''] fat_sources) = []
   \<and> linker without_libtool ''com.apple.pbx.linkers.libtool'' = None
   \<and> snd (Create without_libtool [''libz.dylib''] fat_sources) = None
   \<and> fst (Create without_libtool [''libz.dylib''] fat_sources) =
        [''error: couldn't get linker tools'' @ [CHR 0x0A]]"
proof -
  have present: "linker fat_context ''com.apple.pbx.linkers.ld'' \<noteq> None"
    "linker fat_context ''com.apple.pbx.linkers.libtool'' \<noteq> None"
    "linker fat_context ''com.apple.xcode.linkers.lipo'' \<noteq> None"
    "tool fat_context ''com.apple.tools.dsymutil'' \<noteq> None"
    by (simp_all add: fat_context_def example_specs_def example_tools_def)
  have missing: "linker without_libtool ''com.apple.pbx.linkers.libtool'' = None"
    by (simp add: without_libtool_def)
  from present missing
    Create_fails_iff_tool_missing [of fat_context "[''libz.dylib'']" fat_sources]
    Create_fails_iff_tool_missing [of without_libtool "[''libz.dylib'']" fat_sources]
  show ?thesis by auto
qed

text \<open>The diagnostic does not name what is missing: when the only missing spec is the
  tool \<^verbatim>\<open>dsymutil\<close> (the three linkers are found) the line is the one printed when the only
  missing spec is the linker \<^verbatim>\<open>lipo\<close>.\<close>

theorem Create_diagnostic_is_one_fixed_line:
  "linker without_dsymutil ''com.apple.pbx.linkers.ld'' = Some (Linker ''com.apple.pbx.linkers.ld'')
   \<and> linker without_dsymutil ''com.apple.pbx.linkers.libtool'' =
        Some (Linker ''com.apple.pbx.linkers.libtool'')
   \<and> linker without_dsymutil ''com.apple.xcode.linkers.lipo'' =
        Some (Linker ''com.apple.xcode.linkers.lipo'')
   \<and> tool without_dsymutil ''com.apple.tools.dsymutil'' = None
   \<and> Create without_dsymutil [''libz.dylib''] fat_sources =
        ([''error: couldn't get linker tools'' @ [CHR 0x0A]], None)
   \<and> linker without_lipo ''com.apple.xcode.linkers.lipo'' = None
   \<and> tool without_lipo ''com.apple.tools.dsymutil'' = Some (Tool ''com.apple.tools.dsymutil'')
   \<and> Create without_lipo [''libz.dylib''] fat_sources =
        ([''error: couldn't get linker tools'' @ [CHR 0x0A]], None)"
  by (simp add: without_dsymutil_def without_lipo_def fat_context_def example_specs_def
        example_tools_def Create_def)

text \<open>
  Claim C4. When \<^const>\<open>Create\<close> returns a resolver, its invocations are one block per
  variant, in variant order: the link invocations, then the lipo invocations, then the
  dsymutil invocations of the variant. There is one link invocation per architecture, in
  architecture order. With more than one architecture the output of the link for an
  architecture is \<^verbatim>\<open>variantIntermediatesDirectory/arch/variantIntermediatesName\<close>, and one
  lipo invocation follows whose inputs are those outputs in architecture order, which has
  no library files and whose output is \<^verbatim>\<open>variantProductsOutput\<close>. Otherwise every link
  writes \<^verbatim>\<open>variantProductsOutput\<close> and there is no lipo invocation. The last part of the
  block is empty or one tool invocation.
\<close>

theorem Create_links_then_lipo:
  assumes "Create ctx files src = (err, Some invocations)"
  shows "\<exists>L exe args lipo links lipos dsyms.
           linker ctx ''com.apple.xcode.linkers.lipo'' = Some lipo
         \<and> invocations = concat (map (\<lambda>v. links v @ lipos v @ dsyms v) (variants ctx))
         \<and> (\<forall>v. links v =
                map (\<lambda>arch. LinkerInvocation L (objectOutputs ctx src v arch)
                               (libraryFiles ctx files v arch)
                               (if 1 < length (architectures ctx)
                                then variantIntermediatesDirectory ctx v @ ''/'' @ arch @ ''/''
                                     @ variantIntermediatesName ctx v
                                else variantProductsOutput ctx v)
                               args (archEnvironment ctx v arch) (targetWorkingDirectory ctx) exe)
                  (architectures ctx))
         \<and> (\<forall>v. lipos v =
                (if 1 < length (architectures ctx)
                 then [LinkerInvocation lipo
                         (map (\<lambda>arch. variantIntermediatesDirectory ctx v @ ''/'' @ arch @ ''/''
                                        @ variantIntermediatesName ctx v) (architectures ctx))
                         [] (variantProductsOutput ctx v) [] (variantEnvironment ctx v)
                         (targetWorkingDirectory ctx) []]
                 else []))
         \<and> (\<forall>v. dsyms v = [] \<or> (\<exists>t ins outs env wd. dsyms v = [ToolInvocation t ins outs env wd]))"
proof -
  from Create_Some [OF assms] obtain lipo dsymutil L exe args where
    lipo: "linker ctx ''com.apple.xcode.linkers.lipo'' = Some lipo" and
    inv: "invocations =
            fold (linkVariant ctx files src (L, exe, args) lipo dsymutil
                    (resolve ctx (environment ctx) ''MACH_O_TYPE''))
              (variants ctx) []"
    by blast
  let ?bt = "resolve ctx (environment ctx) ''MACH_O_TYPE''"
  let ?links = "\<lambda>v. map (\<lambda>arch. LinkerInvocation L (objectOutputs ctx src v arch)
                               (libraryFiles ctx files v arch)
                               (if 1 < length (architectures ctx)
                                then variantIntermediatesDirectory ctx v @ ''/'' @ arch @ ''/''
                                     @ variantIntermediatesName ctx v
                                else variantProductsOutput ctx v)
                               args (archEnvironment ctx v arch) (targetWorkingDirectory ctx) exe)
                  (architectures ctx)"
  let ?lipos = "\<lambda>v. (if 1 < length (architectures ctx)
                 then [LinkerInvocation lipo
                         (map (\<lambda>arch. variantIntermediatesDirectory ctx v @ ''/'' @ arch @ ''/''
                                        @ variantIntermediatesName ctx v) (architectures ctx))
                         [] (variantProductsOutput ctx v) [] (variantEnvironment ctx v)
                         (targetWorkingDirectory ctx) []]
                 else [])"
  let ?dsyms = "\<lambda>v. (if resolve ctx (variantEnvironment ctx v) ''DEBUG_INFORMATION_FORMAT''
                          = ''dwarf-with-dsym'' \<and> ?bt \<noteq> ''staticlib'' \<and> ?bt \<noteq> ''mh_object''
        then [ToolInvocation dsymutil [variantProductsOutput ctx v]
                [resolve ctx (variantEnvironment ctx v) ''DWARF_DSYM_FOLDER_PATH'' @ ''/''
                 @ resolve ctx (variantEnvironment ctx v) ''DWARF_DSYM_FILE_NAME'']
                (variantEnvironment ctx v) (targetWorkingDirectory ctx)]
        else [])"
  have step: "linkVariant ctx files src (L, exe, args) lipo dsymutil ?bt v acc
                = acc @ (?links v @ ?lipos v @ ?dsyms v)" for v acc
    unfolding linkVariant_closed
    by (simp add: architectureIntermediatesOutput_def)
  have blocks: "invocations = concat (map (\<lambda>v. ?links v @ ?lipos v @ ?dsyms v) (variants ctx))"
    unfolding inv by (subst fold_append_blocks [OF step]) simp
  have last: "\<forall>v. ?dsyms v = [] \<or> (\<exists>t ins outs env wd. ?dsyms v = [ToolInvocation t ins outs env wd])"
    by simp
  show ?thesis
    apply (rule exI [of _ L], rule exI [of _ exe], rule exI [of _ args], rule exI [of _ lipo])
    apply (rule exI [of _ ?links], rule exI [of _ ?lipos], rule exI [of _ ?dsyms])
    apply (intro conjI)
        apply (rule lipo)
       apply (rule blocks)
      apply simp
     apply simp
    apply (rule last)
    done
qed

lemmas fat_defs =
  fat_context_def fat_sources_def fat_invocations_def example_specs_def example_tools_def
  lookup_resolve_def fat_settings_def variantEnvironment_def variantProductsOutput_def
  archEnvironment_def architectureIntermediatesOutput_def libraryFiles_def objectOutputs_def
  variantIntermediatesDirectory_def variantIntermediatesName_def

lemma Create_fat:
  "Create fat_context [''libz.dylib''] fat_sources = ([], Some fat_invocations)"
  by code_simp

text \<open>The executable for \<^verbatim>\<open>arm64\<close> and \<^verbatim>\<open>x86_64\<close>: two links, then the lipo invocation
  that merges \<^verbatim>\<open>/o/arm64/App\<close> and \<^verbatim>\<open>/o/x86_64/App\<close> into \<^verbatim>\<open>/b/App\<close>.\<close>

theorem Create_links_then_lipo_witness:
  "Create fat_context [''libz.dylib''] fat_sources = ([], Some fat_invocations)
   \<and> (\<exists>links lipos dsyms. fat_invocations = links @ lipos @ dsyms
         \<and> length links = 2
         \<and> lipos = [LinkerInvocation (Linker ''com.apple.xcode.linkers.lipo'')
                      [''/o/arm64/App'', ''/o/x86_64/App''] [] ''/b/App'' []
                      [[(''CURRENT_VARIANT'', ''normal'')], fat_settings] ''/w'' []]
         \<and> length dsyms \<le> 1)"
proof -
  from Create_links_then_lipo [OF Create_fat] obtain L exe args lipo links lipos dsyms where
    lipo: "linker fat_context ''com.apple.xcode.linkers.lipo'' = Some lipo"
    and blocks: "fat_invocations
                   = concat (map (\<lambda>v. links v @ lipos v @ dsyms v) (variants fat_context))"
    and rest:
      "\<forall>v. links v =
             map (\<lambda>arch. LinkerInvocation L (objectOutputs fat_context fat_sources v arch)
                            (libraryFiles fat_context [''libz.dylib''] v arch)
                            (if 1 < length (architectures fat_context)
                             then variantIntermediatesDirectory fat_context v @ ''/'' @ arch @ ''/''
                                  @ variantIntermediatesName fat_context v
                             else variantProductsOutput fat_context v)
                            args (archEnvironment fat_context v arch)
                            (targetWorkingDirectory fat_context) exe)
               (architectures fat_context)"
      "\<forall>v. lipos v =
             (if 1 < length (architectures fat_context)
              then [LinkerInvocation lipo
                      (map (\<lambda>arch. variantIntermediatesDirectory fat_context v @ ''/'' @ arch @ ''/''
                                     @ variantIntermediatesName fat_context v)
                         (architectures fat_context))
                      [] (variantProductsOutput fat_context v) [] (variantEnvironment fat_context v)
                      (targetWorkingDirectory fat_context) []]
              else [])"
      "\<forall>v. dsyms v = [] \<or> (\<exists>t ins outs env wd. dsyms v = [ToolInvocation t ins outs env wd])"
    by blast
  have 1: "fat_invocations = links ''normal'' @ lipos ''normal'' @ dsyms ''normal''"
    using blocks by (simp add: fat_context_def)
  have 2: "length (links ''normal'') = 2"
    by (simp add: rest(1) fat_context_def)
  have 3: "lipos ''normal'' = [LinkerInvocation (Linker ''com.apple.xcode.linkers.lipo'')
                      [''/o/arm64/App'', ''/o/x86_64/App''] [] ''/b/App'' []
                      [[(''CURRENT_VARIANT'', ''normal'')], fat_settings] ''/w'' []]"
    using lipo by (simp add: rest(2) fat_defs)
  have 4: "length (dsyms ''normal'') \<le> 1"
    using rest(3) [rule_format, of "''normal''"] by auto
  from Create_fat 1 2 3 4 show ?thesis by blast
qed

text \<open>
  Claim C5. When \<^const>\<open>Create\<close> returns a resolver, the block of a variant ends with a
  dsymutil invocation if and only if \<^verbatim>\<open>DEBUG_INFORMATION_FORMAT\<close> resolves in the variant's
  environment to \<^verbatim>\<open>dwarf-with-dsym\<close> and \<^verbatim>\<open>MACH_O_TYPE\<close> is neither \<^verbatim>\<open>staticlib\<close> nor
  \<^verbatim>\<open>mh_object\<close>. Its input is \<^verbatim>\<open>variantProductsOutput\<close>, its output is
  \<^verbatim>\<open>DWARF_DSYM_FOLDER_PATH\<close>, a slash and \<^verbatim>\<open>DWARF_DSYM_FILE_NAME\<close>, and everything before
  it in the block is a linker invocation, so it is the last invocation of the variant and
  the only one made for a tool.
\<close>

theorem Create_dsymutil_iff:
  assumes "Create ctx files src = (err, Some invocations)"
  shows "\<exists>dsymutil front.
           tool ctx ''com.apple.tools.dsymutil'' = Some dsymutil
         \<and> invocations =
             concat (map (\<lambda>v. front v
                @ (if resolve ctx (variantEnvironment ctx v) ''DEBUG_INFORMATION_FORMAT''
                        = ''dwarf-with-dsym''
                      \<and> resolve ctx (environment ctx) ''MACH_O_TYPE'' \<noteq> ''staticlib''
                      \<and> resolve ctx (environment ctx) ''MACH_O_TYPE'' \<noteq> ''mh_object''
                   then [ToolInvocation dsymutil [variantProductsOutput ctx v]
                           [resolve ctx (variantEnvironment ctx v) ''DWARF_DSYM_FOLDER_PATH'' @ ''/''
                            @ resolve ctx (variantEnvironment ctx v) ''DWARF_DSYM_FILE_NAME'']
                           (variantEnvironment ctx v) (targetWorkingDirectory ctx)]
                   else []))
               (variants ctx))
         \<and> (\<forall>v. \<forall>x \<in> set (front v).
                \<exists>l ins libs out args env wd exe. x = LinkerInvocation l ins libs out args env wd exe)"
proof -
  from Create_Some [OF assms] obtain lipo dsymutil L exe args where
    dsymutil: "tool ctx ''com.apple.tools.dsymutil'' = Some dsymutil" and
    inv: "invocations =
            fold (linkVariant ctx files src (L, exe, args) lipo dsymutil
                    (resolve ctx (environment ctx) ''MACH_O_TYPE''))
              (variants ctx) []"
    by blast
  let ?bt = "resolve ctx (environment ctx) ''MACH_O_TYPE''"
  let ?front = "\<lambda>v. map (\<lambda>arch. LinkerInvocation L (objectOutputs ctx src v arch)
                      (libraryFiles ctx files v arch)
                      (if 1 < length (architectures ctx)
                       then architectureIntermediatesOutput ctx v arch
                       else variantProductsOutput ctx v)
                      args (archEnvironment ctx v arch) (targetWorkingDirectory ctx) exe)
         (architectures ctx)
     @ (if 1 < length (architectures ctx)
        then [LinkerInvocation lipo (map (architectureIntermediatesOutput ctx v) (architectures ctx))
                [] (variantProductsOutput ctx v) [] (variantEnvironment ctx v)
                (targetWorkingDirectory ctx) []]
        else [])"
  let ?dsym = "\<lambda>v. (if resolve ctx (variantEnvironment ctx v) ''DEBUG_INFORMATION_FORMAT''
                        = ''dwarf-with-dsym''
                      \<and> ?bt \<noteq> ''staticlib'' \<and> ?bt \<noteq> ''mh_object''
                   then [ToolInvocation dsymutil [variantProductsOutput ctx v]
                           [resolve ctx (variantEnvironment ctx v) ''DWARF_DSYM_FOLDER_PATH'' @ ''/''
                            @ resolve ctx (variantEnvironment ctx v) ''DWARF_DSYM_FILE_NAME'']
                           (variantEnvironment ctx v) (targetWorkingDirectory ctx)]
                   else [])"
  have step: "linkVariant ctx files src (L, exe, args) lipo dsymutil ?bt v acc
                = acc @ (?front v @ ?dsym v)" for v acc
    unfolding linkVariant_closed by simp
  have blocks: "invocations = concat (map (\<lambda>v. ?front v @ ?dsym v) (variants ctx))"
    unfolding inv by (subst fold_append_blocks [OF step]) simp
  have linkers: "\<forall>v. \<forall>x \<in> set (?front v).
      \<exists>l ins libs out args env wd exe. x = LinkerInvocation l ins libs out args env wd exe"
    by auto
  show ?thesis
    apply (rule exI [of _ dsymutil], rule exI [of _ ?front])
    apply (intro conjI)
      apply (rule dsymutil)
     apply (rule blocks)
    apply (rule linkers)
    done
qed

text \<open>The executable of the example asks for \<^verbatim>\<open>dwarf-with-dsym\<close>: its last invocation runs
  dsymutil on \<^verbatim>\<open>/b/App\<close> and writes \<^verbatim>\<open>/b/App.dSYM\<close>.\<close>

theorem Create_dsymutil_iff_witness:
  "Create fat_context [''libz.dylib''] fat_sources = ([], Some fat_invocations)
   \<and> (\<exists>front. fat_invocations =
          front @ [ToolInvocation (Tool ''com.apple.tools.dsymutil'') [''/b/App''] [''/b/App.dSYM'']
                     [[(''CURRENT_VARIANT'', ''normal'')], fat_settings] ''/w'']
        \<and> (\<forall>x \<in> set front.
              \<exists>l ins libs out args env wd exe. x = LinkerInvocation l ins libs out args env wd exe))"
proof -
  from Create_dsymutil_iff [OF Create_fat] obtain dsymutil front where
    dsymutil: "tool fat_context ''com.apple.tools.dsymutil'' = Some dsymutil"
    and blocks: "fat_invocations =
             concat (map (\<lambda>v. front v
                @ (if resolve fat_context (variantEnvironment fat_context v) ''DEBUG_INFORMATION_FORMAT''
                        = ''dwarf-with-dsym''
                      \<and> resolve fat_context (environment fat_context) ''MACH_O_TYPE'' \<noteq> ''staticlib''
                      \<and> resolve fat_context (environment fat_context) ''MACH_O_TYPE'' \<noteq> ''mh_object''
                   then [ToolInvocation dsymutil [variantProductsOutput fat_context v]
                           [resolve fat_context (variantEnvironment fat_context v)
                              ''DWARF_DSYM_FOLDER_PATH'' @ ''/''
                            @ resolve fat_context (variantEnvironment fat_context v)
                                ''DWARF_DSYM_FILE_NAME'']
                           (variantEnvironment fat_context v) (targetWorkingDirectory fat_context)]
                   else []))
               (variants fat_context))"
    and linkers: "\<forall>v. \<forall>x \<in> set (front v).
                \<exists>l ins libs out args env wd exe. x = LinkerInvocation l ins libs out args env wd exe"
    by blast
  have "fat_invocations =
          front ''normal''
          @ [ToolInvocation (Tool ''com.apple.tools.dsymutil'') [''/b/App''] [''/b/App.dSYM'']
               [[(''CURRENT_VARIANT'', ''normal'')], fat_settings] ''/w'']"
    using dsymutil by (subst blocks) (simp add: fat_defs)
  with linkers Create_fat show ?thesis by blast
qed

section \<open>Properties of the Ninja executor: failures\<close>

lemma failure_free_simps [simp]:
  "failure_free []"
  "failure_free (xs @ ys) \<longleftrightarrow> failure_free xs \<and> failure_free ys"
  "failure_free (Fs c ok # xs) \<longleftrightarrow> ok \<and> failure_free xs"
  "failure_free (Wrote p body written # xs) \<longleftrightarrow> failure_free xs"
  by (auto simp: failure_free_def)

lemma stops_refl: "stops_at_failure tr True tr"
  by (simp add: stops_at_failure_def)

lemma stops_trans:
  assumes "stops_at_failure tr True tr1" and "stops_at_failure tr1 ok tr2"
  shows "stops_at_failure tr ok tr2"
proof -
  from assms(1) obtain a where a: "tr1 = tr @ a" "failure_free a"
    by (auto simp: stops_at_failure_def)
  from assms(2) obtain b where b: "tr2 = tr1 @ b"
    "if ok then failure_free b else \<exists>before c. b = before @ [Fs c False] \<and> failure_free before"
    by (auto simp: stops_at_failure_def)
  show ?thesis
  proof (cases ok)
    case True
    with a b show ?thesis by (auto simp: stops_at_failure_def)
  next
    case False
    with b obtain before c where "b = before @ [Fs c False]" "failure_free before" by auto
    with a b(1) False have "tr2 = tr @ (a @ before) @ [Fs c False] \<and> failure_free (a @ before)"
      by simp
    with False show ?thesis unfolding stops_at_failure_def by (metis append.assoc)
  qed
qed

text \<open>Sequencing: the second operation runs only if the first succeeded.\<close>

lemma stops_step:
  assumes "stops_at_failure tr ok1 tr1"
    and "ok1 \<Longrightarrow> stops_at_failure tr1 ok tr2"
    and "\<not> ok1 \<Longrightarrow> ok = False \<and> tr2 = tr1"
  shows "stops_at_failure tr ok tr2"
proof (cases ok1)
  case True
  with assms(1) have "stops_at_failure tr True tr1" by simp
  from stops_trans [OF this assms(2) [OF True]] show ?thesis .
next
  case False
  with assms(1) assms(3) show ?thesis by simp
qed

lemma stops_fs_call:
  "fs_call sys c tr = (ok, tr') \<Longrightarrow> stops_at_failure tr ok tr'"
  unfolding fs_call_def stops_at_failure_def
  by (cases ok) (auto simp: Let_def intro: exI [of _ "[]"])

lemma stops_write_file:
  "stops_at_failure tr True (write_file sys p body tr)"
  by (simp add: stops_at_failure_def write_file_def)

lemma ninjaFiles_append [simp]:
  "ninjaFiles (xs @ ys) = ninjaFiles xs @ ninjaFiles ys"
  by (induction xs rule: ninjaFiles.induct) simp_all


lemma stops_writeAuxiliaryFiles:
  "writeAuxiliaryFiles sys files tr = (ok, tr') \<Longrightarrow> stops_at_failure tr ok tr'"
proof (induction files arbitrary: tr)
  case Nil
  then show ?case by (simp add: stops_refl)
next
  case (Cons f rest)
  obtain created tr1 where c:
    "fs_call sys (CreateDirectory (GetDirectoryName sys (aux_path f))) tr = (created, tr1)"
    by (cases "fs_call sys (CreateDirectory (GetDirectoryName sys (aux_path f))) tr")
  obtain opened tr2 where opn: "fs_call sys (OpenTruncate (aux_path f)) tr1 = (opened, tr2)"
    by (cases "fs_call sys (OpenTruncate (aux_path f)) tr1")
  let ?tr3 = "write_file sys (aux_path f) (Bytes (aux_contents f)) tr2"
  obtain changed tr4 where ch: "fs_call sys (Chmod (aux_path f)) ?tr3 = (changed, tr4)"
    by (cases "fs_call sys (Chmod (aux_path f)) ?tr3")
  show ?case
  proof (rule stops_step [OF stops_fs_call [OF c]])
    assume created
    show "stops_at_failure tr1 ok tr'"
    proof (rule stops_step [OF stops_fs_call [OF opn]])
      assume opened
      show "stops_at_failure tr2 ok tr'"
      proof (rule stops_step [OF stops_write_file [of tr2 sys "aux_path f" "Bytes (aux_contents f)"]])
        show "stops_at_failure ?tr3 ok tr'"
        proof (cases "aux_executable f \<and> \<not> TestForExecute sys ?tr3 (aux_path f)")
          case False
          with Cons.prems c opn \<open>created\<close> \<open>opened\<close>
          have "writeAuxiliaryFiles sys rest ?tr3 = (ok, tr')" by (auto simp: Let_def)
          then show ?thesis by (rule Cons.IH)
        next
          case True
          show ?thesis
          proof (rule stops_step [OF stops_fs_call [OF ch]])
            assume changed
            with Cons.prems c opn ch \<open>created\<close> \<open>opened\<close> True
            have "writeAuxiliaryFiles sys rest tr4 = (ok, tr')" by (auto simp: Let_def)
            then show "stops_at_failure tr4 ok tr'" by (rule Cons.IH)
          next
            assume "\<not> changed"
            with Cons.prems c opn ch \<open>created\<close> \<open>opened\<close> True
            show "ok = False \<and> tr' = tr4" by (auto simp: Let_def)
          qed
        qed
      qed simp
    next
      assume "\<not> opened"
      with Cons.prems c opn \<open>created\<close> show "ok = False \<and> tr' = tr2" by simp
    qed
  next
    assume "\<not> created"
    with Cons.prems c show "ok = False \<and> tr' = tr1" by simp
  qed
qed

lemma stops_writeInvocationsAuxiliaryFiles:
  "writeInvocationsAuxiliaryFiles sys invocations tr = (ok, tr') \<Longrightarrow> stops_at_failure tr ok tr'"
proof (induction invocations arbitrary: tr)
  case Nil
  then show ?case by (simp add: stops_refl)
next
  case (Cons i rest)
  obtain ok1 tr1 where w: "writeAuxiliaryFiles sys (auxiliaryFiles i) tr = (ok1, tr1)"
    by (cases "writeAuxiliaryFiles sys (auxiliaryFiles i) tr")
  show ?case
  proof (rule stops_step [OF stops_writeAuxiliaryFiles [OF w]])
    assume ok1
    with Cons.prems w have "writeInvocationsAuxiliaryFiles sys rest tr1 = (ok, tr')" by simp
    then show "stops_at_failure tr1 ok tr'" by (rule Cons.IH)
  next
    assume "\<not> ok1"
    with Cons.prems w show "ok = False \<and> tr' = tr1" by simp
  qed
qed

lemma stops_buildTargetAuxiliaryFiles:
  "buildTargetAuxiliaryFiles sys invocations tr = (ok, tr') \<Longrightarrow> stops_at_failure tr ok tr'"
  by (auto simp: buildTargetAuxiliaryFiles_def stops_refl stops_writeInvocationsAuxiliaryFiles
      split: if_splits)

section \<open>Properties of the Ninja executor: the loops in closed form\<close>

lemma ninjaFiles_fs_call:
  "fs_call sys c tr = (ok, tr') \<Longrightarrow> ninjaFiles tr' = ninjaFiles tr"
  by (auto simp: fs_call_def Let_def)

lemma ninjaFiles_writeAuxiliaryFiles:
  "writeAuxiliaryFiles sys files tr = (ok, tr') \<Longrightarrow> ninjaFiles tr' = ninjaFiles tr"
proof (induction files arbitrary: tr)
  case Nil
  then show ?case by simp
next
  case (Cons f rest)
  from Cons.prems show ?case
    by (auto simp: Let_def write_file_def split: prod.splits if_splits
        dest!: Cons.IH ninjaFiles_fs_call)
qed

lemma ninjaFiles_writeInvocationsAuxiliaryFiles:
  "writeInvocationsAuxiliaryFiles sys invocations tr = (ok, tr') \<Longrightarrow> ninjaFiles tr' = ninjaFiles tr"
proof (induction invocations arbitrary: tr)
  case Nil
  then show ?case by simp
next
  case (Cons i rest)
  from Cons.prems show ?case
    by (auto split: prod.splits if_splits dest!: Cons.IH ninjaFiles_writeAuxiliaryFiles)
qed

lemma ninjaFiles_buildTargetAuxiliaryFiles:
  "buildTargetAuxiliaryFiles sys invocations tr = (ok, tr') \<Longrightarrow> ninjaFiles tr' = ninjaFiles tr"
  by (auto simp: buildTargetAuxiliaryFiles_def split: if_splits
      dest: ninjaFiles_writeInvocationsAuxiliaryFiles)

text \<open>A successful \<^const>\<open>WriteNinja\<close> ends the trace with the two calls and the file.\<close>

lemma WriteNinja_ok:
  assumes "WriteNinja sys writer p tr = (True, tr')"
  shows "\<exists>written. tr' = tr @ [Fs (CreateDirectory (GetDirectoryName sys p)) True,
                                 Fs (OpenTruncate p) True, Wrote p (Ninja writer) written]"
  using assms by (auto simp: WriteNinja_def fs_call_def write_file_def Let_def split: if_splits)

text \<open>The body of the invocation loop adds the statements and the diagnostics of the
  invocation.\<close>

lemma buildInvocation_closed:
  "buildInvocation sys targetEnv (TargetNinjaBegin target) tr invocation (writer, err) =
     (writer @ invocationStatements sys targetEnv target tr invocation,
      err @ invocationDiagnostics sys targetEnv tr invocation)"
proof -
  have phony: "fold (\<lambda>phonyInput w. w @ [Build [Value_String phonyInput] ''phony'' [] [] [] []]) ps w
      = w @ map (\<lambda>phonyInput. Build [Value_String phonyInput] ''phony'' [] [] [] []) ps" for ps w
    by (induction ps arbitrary: w) simp_all
  show ?thesis
    by (simp add: buildInvocation_def invocationStatements_def invocationDiagnostics_def
        invocationEmitted_def invocationEdge_def edgeOutputs_def Let_def phony)
qed

lemma fold_buildInvocation:
  "fold (buildInvocation sys targetEnv (TargetNinjaBegin target) tr) invocations (writer, err) =
     (writer @ concat (map (invocationStatements sys targetEnv target tr) invocations),
      err @ concat (map (invocationDiagnostics sys targetEnv tr) invocations))"
  by (induction invocations arbitrary: writer err) (simp_all add: buildInvocation_closed)

text \<open>A successful \<^const>\<open>buildTargetInvocations\<close>: the auxiliary files are written without
  failure, then the sub-graph of the target is written, and the diagnostics of the
  invocations and the final note are printed.\<close>

lemma buildTargetInvocations_ok:
  assumes "buildTargetInvocations sys target targetEnv invocations (tr, err) = (True, tr', err')"
  shows "\<exists>tr1. stops_at_failure tr True tr1 \<and> ninjaFiles tr1 = ninjaFiles tr
           \<and> (\<exists>written.
                tr' = tr1 @ [Fs (CreateDirectory (GetDirectoryName sys (TargetNinjaPath targetEnv))) True,
                             Fs (OpenTruncate (TargetNinjaPath targetEnv)) True,
                             Wrote (TargetNinjaPath targetEnv)
                               (Ninja (targetGraph sys targetEnv target tr1 invocations)) written])
           \<and> err' = err @ concat (map (invocationDiagnostics sys targetEnv tr1) invocations)
                    @ [''Wrote '' @ c_str (name target) @ '' ninja: '' @ c_str (TargetNinjaPath targetEnv) @ [CHR 0x0A]]"
proof -
  obtain written tr1 where aux: "buildTargetAuxiliaryFiles sys invocations tr = (written, tr1)"
    by (cases "buildTargetAuxiliaryFiles sys invocations tr")
  with assms have written: written
    by (auto simp: buildTargetInvocations_def Let_def split: if_splits)
  let ?w = "targetGraph sys targetEnv target tr1 invocations"
  obtain ok tr2 where wn: "WriteNinja sys ?w (TargetNinjaPath targetEnv) tr1 = (ok, tr2)"
    by (cases "WriteNinja sys ?w (TargetNinjaPath targetEnv) tr1")
  from assms aux written wn have ok: ok and tr': "tr' = tr2"
    and err': "err' = err @ concat (map (invocationDiagnostics sys targetEnv tr1) invocations)
                    @ [''Wrote '' @ c_str (name target) @ '' ninja: '' @ c_str (TargetNinjaPath targetEnv) @ [CHR 0x0A]]"
    by (auto simp: buildTargetInvocations_def Let_def fold_buildInvocation targetGraph_def
        split: if_splits)
  from stops_buildTargetAuxiliaryFiles [OF aux] written have "stops_at_failure tr True tr1" by simp
  moreover note ninjaFiles_buildTargetAuxiliaryFiles [OF aux]
  moreover from wn ok have "WriteNinja sys ?w (TargetNinjaPath targetEnv) tr1 = (True, tr2)"
    by simp
  from WriteNinja_ok [OF this] tr'
  have "\<exists>written.
          tr' = tr1 @ [Fs (CreateDirectory (GetDirectoryName sys (TargetNinjaPath targetEnv))) True,
                       Fs (OpenTruncate (TargetNinjaPath targetEnv)) True,
                       Wrote (TargetNinjaPath targetEnv) (Ninja ?w) written]"
    by simp
  ultimately show ?thesis using err' by blast
qed


text \<open>The directory loops add the edge of every mention that meets its directory for the
  first time.\<close>

lemma firstUnseen_append:
  "firstUnseen seen (xs @ ys) = firstUnseen seen xs @ firstUnseen (seen \<union> fst ` set xs) ys"
  by (induction xs arbitrary: seen) (auto simp: insert_absorb)

lemma fold_outputDirectoryEdge:
  "fold (outputDirectoryEdge sys (TargetNinjaBegin target) invocation) outs (writer, seen) =
     (writer @ map (mkdirEdge sys)
                 (firstUnseen seen (map (\<lambda>out. (GetDirectoryName sys out, target, invocation)) outs)),
      seen \<union> GetDirectoryName sys ` set outs)"
  by (induction outs arbitrary: writer seen)
     (auto simp: outputDirectoryEdge_def mkdirEdge_def Let_def)

lemma fold_invocation_directories:
  "fold (\<lambda>invocation. fold (outputDirectoryEdge sys (TargetNinjaBegin target) invocation)
                         (outputs invocation))
     invocations (writer, seen) =
     (writer @ map (mkdirEdge sys)
                 (firstUnseen seen (concat (map (invocationMentions sys target) invocations))),
      seen \<union> fst ` set (concat (map (invocationMentions sys target) invocations)))"
proof (induction invocations arbitrary: writer seen)
  case Nil
  then show ?case by simp
next
  case (Cons i rest)
  have img: "fst ` set (invocationMentions sys target i) = GetDirectoryName sys ` set (outputs i)"
    by (auto simp: invocationMentions_def image_iff)
  have mentions: "map (\<lambda>out. (GetDirectoryName sys out, target, i)) (outputs i)
      = invocationMentions sys target i"
    by (simp add: invocationMentions_def)
  show ?case
    by (simp add: fold_outputDirectoryEdge Cons.IH firstUnseen_append mentions img [symmetric]
        image_Un Un_assoc)
qed

lemma buildTargetOutputDirectories_closed:
  "buildTargetOutputDirectories sys writer target invocations seen =
     (True,
      writer @ map (mkdirEdge sys)
                 (firstUnseen seen (concat (map (invocationMentions sys target) invocations))),
      seen \<union> fst ` set (concat (map (invocationMentions sys target) invocations)))"
  by (simp add: buildTargetOutputDirectories_def fold_invocation_directories)

text \<open>One pass of the target loop that does not return \<^verbatim>\<open>false\<close>.\<close>

lemma buildTarget_ok:
  assumes "buildTarget sys ctx target (writer, seen, tr, err) = (True, writer', seen', tr', err')"
  shows "writer' = writer @ [beginEdge ctx target]
                   @ map (mkdirEdge sys) (firstUnseen seen (targetMentions sys ctx target))
                   @ targetTail sys ctx target"
    and "seen' = seen \<union> fst ` set (targetMentions sys ctx target)"
    and "targetWritten sys ctx target (tr, err) (tr', err')"
proof -
  show "writer' = writer @ [beginEdge ctx target]
                   @ map (mkdirEdge sys) (firstUnseen seen (targetMentions sys ctx target))
                   @ targetTail sys ctx target"
    using assms
    by (auto simp: buildTarget_def Let_def beginEdge_def targetMentions_def targetTail_def
        finishEdge_def buildTargetOutputDirectories_closed map_concat comp_def
        split: option.splits prod.splits if_splits)
  show "seen' = seen \<union> fst ` set (targetMentions sys ctx target)"
    using assms
    by (auto simp: buildTarget_def Let_def targetMentions_def buildTargetOutputDirectories_closed
        split: option.splits prod.splits if_splits)
  show "targetWritten sys ctx target (tr, err) (tr', err')"
  proof (cases "targetEnvironment ctx target")
    case None
    with assms show ?thesis
      by (simp add: buildTarget_def Let_def targetWritten_def)
  next
    case (Some targetEnv)
    with assms have "buildTargetInvocations sys target targetEnv
        (phaseInvocations ctx target targetEnv) (tr, err) = (True, tr', err')"
      by (auto simp: buildTarget_def Let_def buildTargetOutputDirectories_closed
          split: prod.splits if_splits)
    from buildTargetInvocations_ok [OF this] Some show ?thesis
      by (simp add: targetWritten_def)
  qed
qed


lemma stops_targetWritten:
  "targetWritten sys ctx target (tr, err) (tr', err') \<Longrightarrow> stops_at_failure tr True tr'"
  by (auto simp: targetWritten_def stops_refl stops_at_failure_def split: option.splits)


lemma buildTargets_Cons_ok:
  assumes "buildTargets sys ctx (t # rest) st = (True, st')"
  obtains st1 where "buildTarget sys ctx t st = (True, st1)"
    and "buildTargets sys ctx rest st1 = (True, st')"
  using assms by (auto split: prod.splits if_splits)

text \<open>A target loop that does not return \<^verbatim>\<open>false\<close> adds \<^const>\<open>rootStatements\<close> to the root
  writer and passes through \<^const>\<open>targetsWritten\<close>.\<close>

lemma buildTargets_ok:
  "buildTargets sys ctx targets (writer, seen, tr, err) = (True, writer', seen', tr', err')
     \<Longrightarrow> writer' = writer @ rootStatements sys ctx seen targets
         \<and> targetsWritten sys ctx targets (tr, err) (tr', err')"
proof (induction targets arbitrary: writer seen tr err)
  case Nil
  then show ?case by simp
next
  case (Cons t rest)
  from Cons.prems obtain st1 where
    step: "buildTarget sys ctx t (writer, seen, tr, err) = (True, st1)" and
    loop: "buildTargets sys ctx rest st1 = (True, writer', seen', tr', err')"
    by (rule buildTargets_Cons_ok)
  obtain w1 s1 tr1 e1 where st1: "st1 = (w1, s1, tr1, e1)" by (cases st1) auto
  note one = buildTarget_ok [OF step [unfolded st1]]
  from Cons.IH [OF loop [unfolded st1]] one show ?case
    by auto
qed

lemma build_ok:
  assumes "build sys ctx = (True, root, tr, err)"
  shows "root = rootHeader ctx @ rootStatements sys ctx {} (nodes ctx)"
    and "\<exists>tr1 err1 written.
           targetsWritten sys ctx (nodes ctx) ([], []) (tr1, err1)
         \<and> tr = tr1 @ [Fs (CreateDirectory (GetDirectoryName sys (OBJROOT ctx @ ''/build.ninja''))) True,
                        Fs (OpenTruncate (OBJROOT ctx @ ''/build.ninja'')) True,
                        Wrote (OBJROOT ctx @ ''/build.ninja'') (Ninja root) written]
         \<and> err = err1 @ [''Wrote meta-ninja: '' @ c_str (OBJROOT ctx @ ''/build.ninja'') @ [CHR 0x0A]]"
proof -
  obtain ok w s tr1 err1 where loop:
    "buildTargets sys ctx (nodes ctx) (rootHeader ctx, {}, [], []) = (ok, w, s, tr1, err1)"
    by (cases "buildTargets sys ctx (nodes ctx) (rootHeader ctx, {}, [], [])") auto
  with assms have ok: ok by (auto simp: build_def Let_def split: if_splits)
  obtain written tr2 where wn: "WriteNinja sys w (OBJROOT ctx @ ''/build.ninja'') tr1 = (written, tr2)"
    by (cases "WriteNinja sys w (OBJROOT ctx @ ''/build.ninja'') tr1")
  from assms loop ok wn have res: "written" "root = w" "tr = tr2"
    "err = err1 @ [''Wrote meta-ninja: '' @ c_str (OBJROOT ctx @ ''/build.ninja'') @ [CHR 0x0A]]"
    by (auto simp: build_def Let_def split: if_splits)
  from loop ok have "buildTargets sys ctx (nodes ctx) (rootHeader ctx, {}, [], []) = (True, w, s, tr1, err1)"
    by simp
  note closed = buildTargets_ok [OF this]
  from closed res show "root = rootHeader ctx @ rootStatements sys ctx {} (nodes ctx)" by simp
  from wn res have "WriteNinja sys root (OBJROOT ctx @ ''/build.ninja'') tr1 = (True, tr)" by simp
  from WriteNinja_ok [OF this] closed res
  show "\<exists>tr1 err1 written.
           targetsWritten sys ctx (nodes ctx) ([], []) (tr1, err1)
         \<and> tr = tr1 @ [Fs (CreateDirectory (GetDirectoryName sys (OBJROOT ctx @ ''/build.ninja''))) True,
                        Fs (OpenTruncate (OBJROOT ctx @ ''/build.ninja'')) True,
                        Wrote (OBJROOT ctx @ ''/build.ninja'') (Ninja root) written]
         \<and> err = err1 @ [''Wrote meta-ninja: '' @ c_str (OBJROOT ctx @ ''/build.ninja'') @ [CHR 0x0A]]"
    by blast
qed


section \<open>Properties of the Ninja executor: the filesystem calls of a build\<close>

lemma testedCalls_append [simp]:
  "testedCalls (xs @ ys) = testedCalls xs @ testedCalls ys"
  by (induction xs rule: testedCalls.induct) simp_all


lemma calls_write_file [simp]:
  "testedCalls (write_file sys p body tr) = testedCalls tr"
  by (simp add: write_file_def)










section \<open>Properties of the Ninja executor: the files of a build\<close>

lemma writtenPaths_append [simp]:
  "writtenPaths (xs @ ys) = writtenPaths xs @ writtenPaths ys"
  by (induction xs rule: writtenPaths.induct) simp_all


lemma paths_write_file [simp]:
  "writtenPaths (write_file sys p body tr) = writtenPaths tr @ [p]"
  by (simp add: write_file_def)















section \<open>Properties of the Ninja executor: the result of a build\<close>

lemma build_result:
  "fst (build sys ctx) \<Longrightarrow>
     build sys ctx = (True, fst (snd (build sys ctx)), fst (snd (snd (build sys ctx))),
                      snd (snd (snd (build sys ctx))))"
  by (cases "build sys ctx") auto


lemma rootStatements_finish:
  "target \<in> set targets \<Longrightarrow> targetEnvironment ctx target = Some targetEnv \<Longrightarrow>
     finishEdge sys target (phaseInvocations ctx target targetEnv)
       \<in> set (rootStatements sys ctx seen targets)"
  by (induction targets arbitrary: seen) (auto simp: targetTail_def)












text \<open>
  Claim C10, as the code has it. For a target with an environment, in a build that returns
  \<^verbatim>\<open>true\<close>, the root graph has the phony edge for \<^verbatim>\<open>finish-target-T\<close>. Its list of inputs
  is empty; its input dependencies (the implicit inputs, after \<^verbatim>\<open>|\<close>) are the real outputs
  of all invocations of the target, whether they got a build edge or not; its order
  dependencies are the synthetic paths of all their phony outputs.
\<close>

theorem finish_edge_dependencies:
  assumes "build sys ctx = (True, root, tr, err)"
    and "target \<in> set (nodes ctx)"
    and "targetEnvironment ctx target = Some targetEnv"
  shows "Build [Value_String (TargetNinjaFinish target)] ''phony'' [] []
           (map Value_String (concat (map outputs (phaseInvocations ctx target targetEnv))))
           (map Value_String
              (concat (map (\<lambda>invocation. map (NinjaPhonyOutputTarget (md5 sys)) (phonyOutputs invocation))
                         (phaseInvocations ctx target targetEnv))))
         \<in> set root"
  using rootStatements_finish [OF assms(2,3), of sys "{}"] build_ok(1) [OF assms(1)]
  by (simp add: finishEdge_def)

text \<open>The target of the example has one invocation, without executable, whose output is
  \<^verbatim>\<open>/out/a\<close>: the finish edge names \<^verbatim>\<open>/out/a\<close> and no statement of any Ninja file written
  produces it.\<close>

theorem finish_edge_dependencies_witness:
  "fst (build example_system stub_context)
   \<and> \<lparr> name = ''T'', identity = 0 \<rparr> \<in> set (nodes stub_context)
   \<and> targetEnvironment stub_context \<lparr> name = ''T'', identity = 0 \<rparr>
       = Some \<lparr> TARGET_TEMP_DIR = ''/t'', executablePaths = [] \<rparr>
   \<and> Build [Value_String ''finish-target-T''] ''phony'' [] [] [Value_String ''/out/a''] []
       \<in> set (fst (snd (build example_system stub_context)))
   \<and> filter (produces ''/out/a'')
        (concat (ninjaFiles (fst (snd (snd (build example_system stub_context)))))) = []"
proof -
  have ok: "fst (build example_system stub_context)" by code_simp
  have member: "\<lparr> name = ''T'', identity = 0 \<rparr> \<in> set (nodes stub_context)"
    by (simp add: stub_context_def example_context_def)
  have env: "targetEnvironment stub_context \<lparr> name = ''T'', identity = 0 \<rparr>
       = Some \<lparr> TARGET_TEMP_DIR = ''/t'', executablePaths = [] \<rparr>"
    by (simp add: stub_context_def example_context_def)
  have none: "filter (produces ''/out/a'')
        (concat (ninjaFiles (fst (snd (snd (build example_system stub_context)))))) = []"
    by code_simp
  from finish_edge_dependencies [OF build_result [OF ok] member env]
  have "Build [Value_String ''finish-target-T''] ''phony'' [] [] [Value_String ''/out/a''] []
       \<in> set (fst (snd (build example_system stub_context)))"
    by (simp add: stub_context_def example_context_def example_invocation_def TargetNinjaFinish_def)
  with ok member env none show ?thesis by blast
qed

text \<open>
  Claim C10 as the specification states it has the real outputs as explicit inputs of the
  finish edge. In the example the one edge that produces \<^verbatim>\<open>finish-target-T\<close> has no explicit
  input; \<^verbatim>\<open>/out/a\<close> is an input dependency.
\<close>

theorem finish_edge_has_no_explicit_input:
  "filter (produces ''finish-target-T'') (fst (snd (build example_system stub_context)))
     = [Build [Value_String ''finish-target-T''] ''phony'' [] [] [Value_String ''/out/a''] []]"
  by code_simp

section \<open>Properties of the Ninja executor: output directories\<close>

lemma createsDirectory_mkdirEdge [simp]:
  "createsDirectory d (mkdirEdge sys m) = (fst m = d)"
  by (cases m) (auto simp: mkdirEdge_def)

lemma createsDirectory_begin [simp]: "\<not> createsDirectory d (beginEdge ctx target)"
  by (simp add: beginEdge_def NinjaRuleName_def)

lemma filter_createsDirectory_tail [simp]:
  "filter (createsDirectory d) (targetTail sys ctx target) = []"
  by (simp add: targetTail_def finishEdge_def NinjaRuleName_def split: option.splits)

lemma filter_createsDirectory_header [simp]:
  "filter (createsDirectory d) (rootHeader ctx) = []"
  by (simp add: rootHeader_def split: option.splits)

text \<open>The directory-creation edges of the root graph are those of the first mentions.\<close>

lemma filter_createsDirectory_rootStatements:
  "filter (createsDirectory d) (rootStatements sys ctx seen targets) =
     map (mkdirEdge sys)
       (filter (\<lambda>m. fst m = d) (firstUnseen seen (concat (map (targetMentions sys ctx) targets))))"
  by (induction targets arbitrary: seen) (simp_all add: firstUnseen_append filter_map comp_def)

lemma firstUnseen_seen:
  "d \<in> seen \<Longrightarrow> filter (\<lambda>m. fst m = d) (firstUnseen seen ms) = []"
  by (induction ms arbitrary: seen) auto

lemma firstUnseen_find:
  "d \<notin> seen \<Longrightarrow>
     filter (\<lambda>m. fst m = d) (firstUnseen seen ms) =
       (case find (\<lambda>m. fst m = d) ms of None \<Rightarrow> [] | Some m \<Rightarrow> [m])"
  by (induction ms arbitrary: seen) (auto simp: firstUnseen_seen)

lemma find_append_cases:
  "find P (xs @ ys) = (case find P xs of None \<Rightarrow> find P ys | Some x \<Rightarrow> Some x)"
  by (induction xs) auto

lemma find_concat_map:
  "find P (concat (map f xs)) = Some m \<Longrightarrow>
     \<exists>before x after. xs = before @ x # after
        \<and> (\<forall>y \<in> set before. \<forall>m' \<in> set (f y). \<not> P m') \<and> find P (f x) = Some m"
proof (induction xs)
  case Nil
  then show ?case by simp
next
  case (Cons x xs)
  show ?case
  proof (cases "find P (f x)")
    case (Some m')
    with Cons.prems have "find P (f x) = Some m" by (simp add: find_append_cases)
    then have "x # xs = [] @ x # xs \<and> (\<forall>y \<in> set []. \<forall>m' \<in> set (f y). \<not> P m')
        \<and> find P (f x) = Some m"
      by simp
    then show ?thesis by blast
  next
    case None
    with Cons.prems have "find P (concat (map f xs)) = Some m" by (simp add: find_append_cases)
    from Cons.IH [OF this] obtain before y after where
      split: "xs = before @ y # after" and
      earlier: "\<forall>z \<in> set before. \<forall>m' \<in> set (f z). \<not> P m'" and
      found: "find P (f y) = Some m"
      by blast
    from None have "\<forall>m' \<in> set (f x). \<not> P m'" by (simp add: find_None_iff)
    with split earlier found
    have "x # xs = (x # before) @ y # after
        \<and> (\<forall>z \<in> set (x # before). \<forall>m' \<in> set (f z). \<not> P m') \<and> find P (f y) = Some m"
      by simp
    then show ?thesis by blast
  qed
qed

lemma targetMentions_member:
  "(d, target', invocation) \<in> set (targetMentions sys ctx target) \<longleftrightarrow>
     target' = target
     \<and> (\<exists>targetEnv. targetEnvironment ctx target = Some targetEnv
           \<and> invocation \<in> set (phaseInvocations ctx target targetEnv)
           \<and> d \<in> GetDirectoryName sys ` set (outputs invocation))"
proof (cases "targetEnvironment ctx target")
  case None
  then show ?thesis by (simp add: targetMentions_def)
next
  case (Some targetEnv)
  have "(d, target', invocation) \<in> set (invocationMentions sys target i) \<longleftrightarrow>
      target' = target \<and> invocation = i \<and> d \<in> GetDirectoryName sys ` set (outputs i)" for i
    by (auto simp: invocationMentions_def)
  with Some show ?thesis
    by (auto simp: targetMentions_def)
qed

text \<open>
  Claim C2. In a build that returns \<^verbatim>\<open>true\<close>, take any real output of any invocation of
  any target that has an environment, and let \<open>d\<close> be its directory. The root graph has
  exactly one directory-creation edge for \<open>d\<close>. Its command is \<^verbatim>\<open>/bin/mkdir -p\<close> followed by
  the shell-escaped directory, and its only order dependency is the begin node of the
  first target of the graph that mentions \<open>d\<close>: no target before it in the target loop has
  an output in \<open>d\<close>. Its working directory is that of the first invocation of that target
  with an output in \<open>d\<close>. Later mentions of \<open>d\<close> add nothing.
\<close>

theorem one_directory_edge:
  assumes "build sys ctx = (True, root, tr, err)"
    and "target \<in> set (nodes ctx)"
    and "targetEnvironment ctx target = Some targetEnv"
    and "invocation \<in> set (phaseInvocations ctx target targetEnv)"
    and "out \<in> set (outputs invocation)"
  shows "\<exists>first firstInvocation before after.
           filter (createsDirectory (GetDirectoryName sys out)) root =
             [Build [Value_String (GetDirectoryName sys out)] ''invoke'' []
                [(''description'',
                  Value_String (NinjaDescription (createAuxiliaryDirectory sys (GetDirectoryName sys out)))),
                 (''dir'', Value_String (ShellEscape (workingDirectory firstInvocation))),
                 (''exec'', Value_String (''/bin/mkdir -p '' @ ShellEscape (GetDirectoryName sys out)))]
                [] [Value_String (TargetNinjaBegin first)]]
         \<and> nodes ctx = before @ first # after
         \<and> (\<forall>earlier \<in> set before.
               GetDirectoryName sys out \<notin> fst ` set (targetMentions sys ctx earlier))
         \<and> find (\<lambda>mention. fst mention = GetDirectoryName sys out) (targetMentions sys ctx first)
             = Some (GetDirectoryName sys out, first, firstInvocation)"
proof -
  let ?d = "GetDirectoryName sys out"
  let ?P = "\<lambda>mention :: Mention. fst mention = ?d"
  from assms(5) have "?d \<in> GetDirectoryName sys ` set (outputs invocation)" by (rule imageI)
  with assms(3,4) have "(?d, target, invocation) \<in> set (targetMentions sys ctx target)"
    unfolding targetMentions_member by blast
  with assms(2) have mentioned: "(?d, target, invocation) \<in> set (buildMentions sys ctx)"
    unfolding buildMentions_def by auto
  have "\<exists>m. m \<in> set (buildMentions sys ctx) \<and> ?P m"
    by (rule exI [of _ "(?d, target, invocation)"]) (simp add: mentioned)
  then have "find ?P (buildMentions sys ctx) \<noteq> None"
    by (simp only: find_None_iff not_not)
  then obtain m where found: "find ?P (buildMentions sys ctx) = Some m" by blast
  from find_concat_map [OF found [unfolded buildMentions_def]] obtain before first after where
    split: "nodes ctx = before @ first # after" and
    earlier: "\<forall>y \<in> set before. \<forall>m' \<in> set (targetMentions sys ctx y). \<not> ?P m'" and
    local: "find ?P (targetMentions sys ctx first) = Some m"
    by blast
  from local have m: "fst m = ?d" "m \<in> set (targetMentions sys ctx first)"
    by (auto simp: find_Some_iff)
  obtain d' t' firstInvocation where m_eq: "m = (d', t', firstInvocation)" by (cases m) auto
  with m targetMentions_member [of d' t' firstInvocation sys ctx first]
  have m_first: "m = (?d, first, firstInvocation)" by simp
  have "filter (createsDirectory ?d) root = map (mkdirEdge sys) [m]"
    unfolding build_ok(1) [OF assms(1)]
    by (simp add: filter_createsDirectory_rootStatements firstUnseen_find
        buildMentions_def [symmetric] found)
  then have edge: "filter (createsDirectory ?d) root =
             [Build [Value_String ?d] ''invoke'' []
                [(''description'', Value_String (NinjaDescription (createAuxiliaryDirectory sys ?d))),
                 (''dir'', Value_String (ShellEscape (workingDirectory firstInvocation))),
                 (''exec'', Value_String (''/bin/mkdir -p '' @ ShellEscape ?d))]
                [] [Value_String (TargetNinjaBegin first)]]"
    by (simp add: m_first mkdirEdge_def NinjaRuleName_def)
  from earlier have none_before:
    "\<forall>earlier \<in> set before. ?d \<notin> fst ` set (targetMentions sys ctx earlier)"
    by force
  show ?thesis
    apply (rule exI [of _ first], rule exI [of _ firstInvocation])
    apply (rule exI [of _ before], rule exI [of _ after])
    apply (intro conjI)
       apply (rule edge)
      apply (rule split)
     apply (rule none_before)
    apply (rule local [unfolded m_first])
    done
qed

text \<open>Two targets write to \<^verbatim>\<open>/obj/shared\<close>: the root graph has one edge that creates it,
  made for the first target.\<close>

theorem one_directory_edge_witness:
  "fst (build example_system shared_context)
   \<and> \<lparr> name = ''B'', identity = 2 \<rparr> \<in> set (nodes shared_context)
   \<and> targetEnvironment shared_context \<lparr> name = ''B'', identity = 2 \<rparr>
       = Some \<lparr> TARGET_TEMP_DIR = ''/t/B'', executablePaths = [] \<rparr>
   \<and> shared_B \<in> set (phaseInvocations shared_context \<lparr> name = ''B'', identity = 2 \<rparr>
                         \<lparr> TARGET_TEMP_DIR = ''/t/B'', executablePaths = [] \<rparr>)
   \<and> ''/obj/shared/b.o'' \<in> set (outputs shared_B)
   \<and> GetDirectoryName example_system ''/obj/shared/b.o'' = ''/obj/shared''
   \<and> length (filter (createsDirectory ''/obj/shared'') (fst (snd (build example_system shared_context))))
       = 1
   \<and> filter (createsDirectory ''/obj/shared'') (fst (snd (build example_system shared_context))) =
       [Build [Value_String ''/obj/shared''] ''invoke'' []
          [(''description'', Value_String ''CreateDirectory /obj/shared''),
           (''dir'', Value_String ''/a''),
           (''exec'', Value_String ''/bin/mkdir -p /obj/shared'')]
          [] [Value_String ''begin-target-A'']]"
proof -
  have ok: "fst (build example_system shared_context)" by code_simp
  have member: "\<lparr> name = ''B'', identity = 2 \<rparr> \<in> set (nodes shared_context)"
    by (simp add: shared_context_def)
  have env: "targetEnvironment shared_context \<lparr> name = ''B'', identity = 2 \<rparr>
       = Some \<lparr> TARGET_TEMP_DIR = ''/t/B'', executablePaths = [] \<rparr>"
    by (simp add: shared_context_def)
  have inv: "shared_B \<in> set (phaseInvocations shared_context \<lparr> name = ''B'', identity = 2 \<rparr>
                         \<lparr> TARGET_TEMP_DIR = ''/t/B'', executablePaths = [] \<rparr>)"
    by (simp add: shared_context_def)
  have out: "''/obj/shared/b.o'' \<in> set (outputs shared_B)"
    by (simp add: shared_B_def example_invocation_def)
  have dir: "GetDirectoryName example_system ''/obj/shared/b.o'' = ''/obj/shared''"
    by (simp add: example_system_def)
  from one_directory_edge [OF build_result [OF ok] member env inv out]
  have one: "length (filter (createsDirectory ''/obj/shared'')
                       (fst (snd (build example_system shared_context)))) = 1"
    unfolding dir by fastforce
  have edge: "filter (createsDirectory ''/obj/shared'') (fst (snd (build example_system shared_context))) =
       [Build [Value_String ''/obj/shared''] ''invoke'' []
          [(''description'', Value_String ''CreateDirectory /obj/shared''),
           (''dir'', Value_String ''/a''),
           (''exec'', Value_String ''/bin/mkdir -p /obj/shared'')]
          [] [Value_String ''begin-target-A'']]"
    by code_simp
  from ok member env inv out dir one edge show ?thesis by blast
qed

section \<open>Properties of the Ninja executor: who produces a path\<close>




lemma statementOutputs_mkdirEdge [simp]:
  "statementOutputs (mkdirEdge sys m) = [Value_String (fst m)]"
  by (cases m) (simp add: mkdirEdge_def)


lemma outputs_rootHeader [simp]:
  "concat (map statementOutputs (rootHeader ctx)) = []"
  by (cases "workspace ctx"; cases "project ctx"; cases "scheme ctx") (simp_all add: rootHeader_def)








text \<open>The files that the \<^verbatim>\<open>subninja\<close> lines of the root graph load, when every file
  written is still there at the end: the sub-graphs of the targets, in the order of
  writing.\<close>

lemma included_edges [simp]:
  "included disk (beginEdge ctx target) = []"
  "included disk (mkdirEdge sys m) = []"
  "included disk (finishEdge sys target invocations) = []"
  by (simp_all add: beginEdge_def mkdirEdge_def finishEdge_def split: prod.splits)

lemma included_rootHeader [simp]:
  "concat (map (included disk) (rootHeader ctx)) = []"
  by (cases "workspace ctx"; cases "project ctx"; cases "scheme ctx") (simp_all add: rootHeader_def)

lemma included_mkdirEdges [simp]:
  "concat (map (included disk \<circ> mkdirEdge sys) ms) = []"
  by (induction ms) simp_all







text \<open>Writing to each Ninja file once is needed. Two targets with the same temporary
  directory write their sub-graphs to the same path: the second replaces the first and the
  root graph loads it twice, so its edge for \<^verbatim>\<open>/out/b\<close> is there twice and there is none
  for \<^verbatim>\<open>/out/a\<close>, although no name is handed in twice.\<close>

lemma second_subgraph_replaces_first:
  "fst (build example_system same_directory_context)
   \<and> distinct (declaredOutputs example_system same_directory_context)
   \<and> buildPaths example_system same_directory_context =
       [''/t/build.ninja'', ''/t/build.ninja'', ''/obj/build.ninja'']
   \<and> length (filter (produces ''/out/b'')
               (emittedGraph same_directory_context
                  (fst (snd (snd (build example_system same_directory_context)))))) = 2
   \<and> filter (produces ''/out/a'')
        (emittedGraph same_directory_context
           (fst (snd (snd (build example_system same_directory_context))))) = []"
  by code_simp

end
